theory Spec2Isabelle
  imports Complex_Main
begin

section \<open>Python values and exceptions\<close>

text \<open>
  The development embeds \<^verbatim>\<open>src/entity_matching.py\<close>. A Python \<^verbatim>\<open>str\<close> is a
  \<^typ>\<open>string\<close> whose characters are read as code points below 256. An exception that
  the source can meet is a value of \<open>py_exn\<close>; a computation that may raise returns
  \<open>py_exn + 'a\<close> with \<open>Inl\<close> for the raise.
\<close>

datatype py_exn = ValueError | AttributeError | DatabaseError

text \<open>\<^verbatim>\<open>try: body  except Exception: handler\<close>\<close>

definition try_except :: "py_exn + 'a \<Rightarrow> (py_exn \<Rightarrow> py_exn + 'a) \<Rightarrow> py_exn + 'a" where
  "try_except body handler = (case body of Inl e \<Rightarrow> handler e | Inr v \<Rightarrow> Inr v)"

text \<open>
  \<^verbatim>\<open>str.isspace\<close>, \<^verbatim>\<open>str.isdigit\<close> and \<^verbatim>\<open>str.lower\<close> on code points below 256.
\<close>

definition isspace_char :: "char \<Rightarrow> bool" where
  "isspace_char c =
     (let n = (of_char c :: nat)
      in (9 \<le> n \<and> n \<le> 13) \<or> (28 \<le> n \<and> n \<le> 32) \<or> n = 133 \<or> n = 160)"

definition isdigit_char :: "char \<Rightarrow> bool" where
  "isdigit_char c =
     (let n = (of_char c :: nat)
      in (48 \<le> n \<and> n \<le> 57) \<or> n = 178 \<or> n = 179 \<or> n = 185)"

definition isdigit :: "string \<Rightarrow> bool" where
  "isdigit s = (s \<noteq> [] \<and> list_all isdigit_char s)"

definition lower_char :: "char \<Rightarrow> char" where
  "lower_char c =
     (let n = (of_char c :: nat)
      in if (65 \<le> n \<and> n \<le> 90) \<or> (192 \<le> n \<and> n \<le> 222 \<and> n \<noteq> 215)
         then char_of (n + 32) else c)"

definition lower :: "string \<Rightarrow> string" where
  "lower s = map lower_char s"

definition strip :: "string \<Rightarrow> string" where
  "strip s = rev (dropWhile isspace_char (rev (dropWhile isspace_char s)))"

section \<open>parse_date_safe\<close>

record date =
  year :: nat
  month :: nat
  day :: nat

text \<open>
  \<^verbatim>\<open>datetime.strptime(s, fmt).date()\<close> belongs to the Python library, so it is a
  parameter: it maps the text and the format to a date or raises.
\<close>

type_synonym strptime_fun = "string \<Rightarrow> string \<Rightarrow> py_exn + date"

text \<open>\<^verbatim>\<open>return datetime.strptime(s, fmt).date()\<close>: the value returned, or the raise.\<close>

definition strptime_date :: "strptime_fun \<Rightarrow> string \<Rightarrow> string \<Rightarrow> py_exn + date option" where
  "strptime_date strptime s fmt = (case strptime s fmt of Inl e \<Rightarrow> Inl e | Inr d \<Rightarrow> Inr (Some d))"

text \<open>
  The argument is a \<^verbatim>\<open>str\<close> or \<^verbatim>\<open>None\<close>; \<^verbatim>\<open>not date_str\<close> holds for
  \<^verbatim>\<open>None\<close> and for the empty string.
\<close>

definition parse_date_safe :: "strptime_fun \<Rightarrow> string option \<Rightarrow> py_exn + date option" where
  "parse_date_safe strptime date_str =
     (case date_str of
        None \<Rightarrow> Inr None
      | Some s \<Rightarrow>
          if s = [] then Inr None
          else try_except
            (if length s = 8 \<and> isdigit s then strptime_date strptime s ''%Y%m%d''
             else if length s = 10 \<and> CHR ''-'' \<in> set s then strptime_date strptime s ''%Y-%m-%d''
             else Inr None)
            (\<lambda>e. Inr None))"

section \<open>Staging rows and match candidates\<close>

text \<open>
  A row of \<^verbatim>\<open>stg_abr_entities\<close> and a row of \<^verbatim>\<open>stg_commoncrawl_companies\<close>, with the
  columns that \<^verbatim>\<open>fetch_staging_data\<close> selects. The cell type is a parameter: a cell read
  from the store is a \<^typ>\<open>string option\<close> (\<open>None\<close> for SQL NULL), and after
  \<^verbatim>\<open>fillna("")\<close> it is a \<^typ>\<open>string\<close>. The key \<^verbatim>\<open>commoncrawl_id\<close> is an integer
  and never NULL.
\<close>

record 'c abr_row =
  abn :: 'c
  entity_name_norm :: 'c
  entity_name_raw :: 'c
  entity_type :: 'c
  entity_status :: 'c
  address_full :: 'c
  suburb :: 'c
  postcode :: 'c
  state :: 'c
  start_date_raw :: 'c

record 'c cc_row =
  commoncrawl_id :: int
  crawl_id :: 'c
  url :: 'c
  domain :: 'c
  tld :: 'c
  html_title :: 'c
  company_name_raw :: 'c
  company_name_norm :: 'c
  industry :: 'c
  fetched_at :: 'c

definition fillna_cell :: "string option \<Rightarrow> string" where
  "fillna_cell c = (case c of None \<Rightarrow> [] | Some s \<Rightarrow> s)"

definition fillna_abr :: "string option abr_row \<Rightarrow> string abr_row" where
  "fillna_abr r =
     \<lparr>abn = fillna_cell (abn r), entity_name_norm = fillna_cell (entity_name_norm r),
      entity_name_raw = fillna_cell (entity_name_raw r), entity_type = fillna_cell (entity_type r),
      entity_status = fillna_cell (entity_status r), address_full = fillna_cell (address_full r),
      suburb = fillna_cell (suburb r), postcode = fillna_cell (postcode r),
      state = fillna_cell (state r), start_date_raw = fillna_cell (start_date_raw r)\<rparr>"

definition fillna_cc :: "string option cc_row \<Rightarrow> string cc_row" where
  "fillna_cc r =
     \<lparr>commoncrawl_id = commoncrawl_id r, crawl_id = fillna_cell (crawl_id r),
      url = fillna_cell (url r), domain = fillna_cell (domain r), tld = fillna_cell (tld r),
      html_title = fillna_cell (html_title r),
      company_name_raw = fillna_cell (company_name_raw r),
      company_name_norm = fillna_cell (company_name_norm r),
      industry = fillna_cell (industry r), fetched_at = fillna_cell (fetched_at r)\<rparr>"

text \<open>The dict \<^verbatim>\<open>{"cc": ..., "abr": ..., "score": ..., "method": ...}\<close>.\<close>

record candidate =
  cc :: "string cc_row"
  abr :: "string abr_row"
  score :: real
  method_tag :: string

section \<open>fuzzy_match_entities\<close>

text \<open>
  \<^verbatim>\<open>fuzz.token_sort_ratio\<close> belongs to the rapidfuzz library and is a parameter.
\<close>

type_synonym ratio_fun = "string \<Rightarrow> string \<Rightarrow> real"

text \<open>
  The inner loop over the registry rows: the state is \<^verbatim>\<open>(best_score, best_abr_row)\<close>.
  The third component counts the calls of the similarity function.
\<close>

fun scan_registry ::
  "ratio_fun \<Rightarrow> string \<Rightarrow> string abr_row list \<Rightarrow> real \<times> string abr_row option \<times> nat
     \<Rightarrow> real \<times> string abr_row option \<times> nat" where
  "scan_registry token_sort_ratio cc_name [] st = st"
| "scan_registry token_sort_ratio cc_name (abr_row # rest) (best_score, best_abr_row, calls) =
     (let abr_name = strip (entity_name_norm abr_row)
      in if abr_name = [] then
           scan_registry token_sort_ratio cc_name rest (best_score, best_abr_row, calls)
         else
           let score = token_sort_ratio cc_name abr_name
           in if score > best_score then
                scan_registry token_sort_ratio cc_name rest (score, Some abr_row, Suc calls)
              else
                scan_registry token_sort_ratio cc_name rest (best_score, best_abr_row, Suc calls))"

text \<open>
  The three result lists \<^verbatim>\<open>high_conf_matches\<close>, \<^verbatim>\<open>ambiguous_matches\<close> and
  \<^verbatim>\<open>unmatched_cc\<close>, and the number of similarity comparisons made so far.
\<close>

record buckets =
  high_conf_matches :: "candidate list"
  ambiguous_matches :: "candidate list"
  unmatched_cc :: "string cc_row list"
  comparisons :: nat

text \<open>The body of the outer loop, for one row of the crawl table.\<close>

definition match_row :: "ratio_fun \<Rightarrow> string abr_row list \<Rightarrow> string cc_row \<Rightarrow> buckets \<Rightarrow> buckets" where
  "match_row token_sort_ratio abr_df cc_row b =
     (let cc_name = strip (company_name_norm cc_row)
      in if cc_name = [] then b\<lparr>unmatched_cc := unmatched_cc b @ [cc_row]\<rparr>
         else
           case scan_registry token_sort_ratio cc_name abr_df (- 1, None, 0) of
             (best_score, Some best_abr_row, calls) \<Rightarrow>
               b\<lparr>ambiguous_matches := ambiguous_matches b @
                    [\<lparr>cc = cc_row, abr = best_abr_row, score = best_score,
                      method_tag = ''fuzzy_name_ambiguous''\<rparr>],
                  comparisons := comparisons b + calls\<rparr>
           | (best_score, None, calls) \<Rightarrow>
               b\<lparr>unmatched_cc := unmatched_cc b @ [cc_row],
                  comparisons := comparisons b + calls\<rparr>)"

fun match_rows :: "ratio_fun \<Rightarrow> string abr_row list \<Rightarrow> string cc_row list \<Rightarrow> buckets \<Rightarrow> buckets" where
  "match_rows token_sort_ratio abr_df [] b = b"
| "match_rows token_sort_ratio abr_df (cc_row # rest) b =
     match_rows token_sort_ratio abr_df rest (match_row token_sort_ratio abr_df cc_row b)"

definition empty_buckets :: buckets where
  "empty_buckets =
     \<lparr>high_conf_matches = [], ambiguous_matches = [], unmatched_cc = [], comparisons = 0\<rparr>"

text \<open>
  The thresholds are parameters of the source function; its body does not read them.
\<close>

definition fuzzy_match_entities ::
  "ratio_fun \<Rightarrow> string option abr_row list \<Rightarrow> string option cc_row list \<Rightarrow> int \<Rightarrow> int \<Rightarrow> buckets" where
  "fuzzy_match_entities token_sort_ratio abr_df cc_df high_threshold low_threshold =
     (if abr_df = [] \<or> cc_df = [] then empty_buckets
      else match_rows token_sort_ratio (map fillna_abr abr_df) (map fillna_cc cc_df) empty_buckets)"

text \<open>
  Notions used to state the properties of the matcher: a registry row is eligible when its
  stripped normalised name is not empty, and \<open>ratio_to\<close> is the score of a row against
  a mention's name.
\<close>

definition eligible :: "string abr_row \<Rightarrow> bool" where
  "eligible r = (strip (entity_name_norm r) \<noteq> [])"

definition ratio_to :: "ratio_fun \<Rightarrow> string \<Rightarrow> string abr_row \<Rightarrow> real" where
  "ratio_to token_sort_ratio cc_name r = token_sort_ratio cc_name (strip (entity_name_norm r))"

text \<open>
  The candidate that the body of the outer loop builds for one crawl row, if it builds
  one: the row has a name and the scan of the registry ends with a best row.
\<close>

definition best_pair :: "ratio_fun \<Rightarrow> string abr_row list \<Rightarrow> string cc_row \<Rightarrow> candidate option" where
  "best_pair token_sort_ratio abr_df cc_row =
     (let cc_name = strip (company_name_norm cc_row)
      in if cc_name = [] then None
         else case scan_registry token_sort_ratio cc_name abr_df (- 1, None, 0) of
                (best_score, Some best_abr_row, calls) \<Rightarrow>
                  Some \<lparr>cc = cc_row, abr = best_abr_row, score = best_score,
                        method_tag = ''fuzzy_name_ambiguous''\<rparr>
              | (best_score, None, calls) \<Rightarrow> None)"

definition named :: "string cc_row \<Rightarrow> bool" where
  "named r = (strip (company_name_norm r) \<noteq> [])"

text \<open>
  Sample data: the registry entities A1 and A2 carry the same name, the mention W1 carries
  that name too and the mention W2 has no name. \<open>sample_ratio\<close> scores identical names
  100 and all others 0.
\<close>

definition blank_abr :: "string option abr_row" where
  "blank_abr =
     \<lparr>abn = None, entity_name_norm = None, entity_name_raw = None, entity_type = None,
      entity_status = None, address_full = None, suburb = None, postcode = None,
      state = None, start_date_raw = None\<rparr>"

definition blank_cc :: "string option cc_row" where
  "blank_cc =
     \<lparr>commoncrawl_id = 0, crawl_id = None, url = None, domain = None, tld = None,
      html_title = None, company_name_raw = None, company_name_norm = None,
      industry = None, fetched_at = None\<rparr>"

definition abr_A1 :: "string option abr_row" where
  "abr_A1 = blank_abr\<lparr>abn := Some ''A1'', entity_name_norm := Some ''ACME PTY LTD''\<rparr>"

definition abr_A2 :: "string option abr_row" where
  "abr_A2 = blank_abr\<lparr>abn := Some ''A2'', entity_name_norm := Some ''ACME PTY LTD''\<rparr>"

definition abr_unnamed :: "string option abr_row" where
  "abr_unnamed = blank_abr\<lparr>abn := Some ''A3'', entity_name_norm := Some '' ''\<rparr>"

definition cc_W1 :: "string option cc_row" where
  "cc_W1 = blank_cc\<lparr>commoncrawl_id := 1, company_name_norm := Some ''ACME PTY LTD''\<rparr>"

definition cc_W2 :: "string option cc_row" where
  "cc_W2 = blank_cc\<lparr>commoncrawl_id := 2, company_name_norm := Some []\<rparr>"

definition sample_ratio :: ratio_fun where
  "sample_ratio a b = (if a = b then 100 else 0)"

text \<open>
  A stand-in for the library's date parser on three sample texts: it accepts 29 February
  2024 in both formats and raises on anything else.
\<close>

definition sample_strptime :: strptime_fun where
  "sample_strptime s fmt =
     (if s = ''20240229'' \<and> fmt = ''%Y%m%d'' then Inr \<lparr>year = 2024, month = 2, day = 29\<rparr>
      else if s = ''2024-02-29'' \<and> fmt = ''%Y-%m-%d'' then Inr \<lparr>year = 2024, month = 2, day = 29\<rparr>
      else Inl ValueError)"

section \<open>build_llm_prompt\<close>

definition newline :: char where
  "newline = CHR 0x0A"

text \<open>
  The f-string of the source, line by line. The literal starts and ends with a line break,
  and the source strips the result.
\<close>

definition build_llm_prompt :: "candidate \<Rightarrow> string" where
  \<open>build_llm_prompt amb_match =
     (let cc_name = (if company_name_norm (cc amb_match) \<noteq> [] then company_name_norm (cc amb_match)
                     else company_name_raw (cc amb_match));
          cc_url = url (cc amb_match);
          cc_domain = domain (cc amb_match);
          abr_abn = abn (abr amb_match);
          abr_name_norm = entity_name_norm (abr amb_match);
          abr_name_raw = entity_name_raw (abr amb_match);
          abr_type = entity_type (abr amb_match);
          abr_status = entity_status (abr amb_match);
          abr_addr = address_full (abr amb_match);
          abr_suburb = suburb (abr amb_match);
          abr_state = state (abr amb_match);
          abr_postcode = postcode (abr amb_match)
      in strip (newline # concat (map (\<lambda>l. l @ [newline])
           [''You are matching Australian companies between a website (Common Crawl) and an ABR record.'',
            [],
            ''Common Crawl company:'',
            ''- Normalised name: '' @ cc_name,
            ''- URL: '' @ cc_url,
            ''- Domain: '' @ cc_domain,
            [],
            ''ABR candidate:'',
            ''- ABN: '' @ abr_abn,
            ''- Entity name (normalised): '' @ abr_name_norm,
            ''- Entity name (raw): '' @ abr_name_raw,
            ''- Entity type: '' @ abr_type,
            ''- Status: '' @ abr_status,
            ''- Address: '' @ abr_addr @ '', '' @ abr_suburb @ '', '' @ abr_state @ '' '' @ abr_postcode,
            [],
            ''Question:'',
            ''Are these records referring to the same underlying company?'',
            [],
            ''Respond **only** with a JSON object with the following shape:'',
            ''{'',
            ''  "is_match": true or false,'',
            ''  "confidence": "low" | "medium" | "high",'',
            ''  "reason": "short explanation here"'',
            ''}''])))\<close>

section \<open>The LLM reply\<close>

text \<open>
  A value that \<^verbatim>\<open>json.loads\<close> returns. A number is kept by its value; the source only
  tests it for being zero.
\<close>

datatype json =
    JNull
  | JBool bool
  | JNum real
  | JStr string
  | JArr "json list"
  | JObj "(string \<times> json) list"

text \<open>\<^verbatim>\<open>d.get(key, default)\<close> on a parsed object; \<^verbatim>\<open>d.get(key)\<close> has the default \<^verbatim>\<open>None\<close>.\<close>

definition dict_get :: "(string \<times> json) list \<Rightarrow> string \<Rightarrow> json \<Rightarrow> json" where
  "dict_get d k dflt = (case map_of d k of None \<Rightarrow> dflt | Some v \<Rightarrow> v)"

text \<open>\<^verbatim>\<open>bool(v)\<close>: Python's truth value.\<close>

fun py_bool :: "json \<Rightarrow> bool" where
  "py_bool JNull = False"
| "py_bool (JBool b) = b"
| "py_bool (JNum x) = (x \<noteq> 0)"
| "py_bool (JStr s) = (s \<noteq> [])"
| "py_bool (JArr xs) = (xs \<noteq> [])"
| "py_bool (JObj d) = (d \<noteq> [])"

text \<open>
  \<^verbatim>\<open>str(v)\<close>. The source only compares the lower-case text with the words
  \<^verbatim>\<open>high\<close> and \<^verbatim>\<open>medium\<close>. The text of a number is made of digits, a sign, a point,
  an exponent, or is \<^verbatim>\<open>inf\<close> or \<^verbatim>\<open>nan\<close>, and the text of a list or of a dict starts
  with a bracket; such a text is never one of the two words, and the model returns
  \<open>None\<close> for it.
\<close>

fun py_str :: "json \<Rightarrow> string option" where
  "py_str JNull = Some ''None''"
| "py_str (JBool b) = Some (if b then ''True'' else ''False'')"
| "py_str (JStr s) = Some s"
| "py_str (JNum x) = None"
| "py_str (JArr xs) = None"
| "py_str (JObj d) = None"

text \<open>
  The lines between \<^verbatim>\<open>json.loads\<close> and the append: the value of the test
  \<^verbatim>\<open>is_match and confidence in ("high", "medium")\<close>, or the \<^verbatim>\<open>AttributeError\<close> of
  \<^verbatim>\<open>decision.get\<close> when the parsed value is not a dict.
\<close>

definition decide :: "json \<Rightarrow> py_exn + bool" where
  "decide decision =
     (case decision of
        JObj d \<Rightarrow>
          let is_match = py_bool (dict_get d ''is_match'' JNull);
              confidence = map_option lower (py_str (dict_get d ''confidence'' (JStr [])))
          in Inr (is_match \<and> (confidence = Some ''high'' \<or> confidence = Some ''medium''))
      | _ \<Rightarrow> Inl AttributeError)"

text \<open>
  What one call of the client yields: it raises (the request fails, or the message has no
  content), or it returns the content of the message. The content comes with what
  \<^verbatim>\<open>json.loads\<close>, a library function, makes of its stripped text: \<open>None\<close> when
  it raises.
\<close>

datatype llm_outcome = Raised | Content string "json option"

text \<open>
  The environment of a run: the module's client (\<open>None\<close> when its construction
  failed), given by the outcome of its calls in order, and the environment variable
  \<^verbatim>\<open>OPENAI_API_KEY\<close>.
\<close>

record env =
  openai_client :: "(nat \<Rightarrow> llm_outcome) option"
  openai_api_key :: "string option"

text \<open>
  The effects of a run: the lines appended to the log file, each a prompt and a response,
  and the prompts sent to the client. Creating the log directory and appending to the
  log file are taken to succeed.
\<close>

record world =
  llm_log :: "(string \<times> string) list"
  requests :: "string list"

section \<open>llm_review_ambiguous\<close>

text \<open>The body of the loop, with its \<^verbatim>\<open>try\<close> and \<^verbatim>\<open>except\<close>.\<close>

definition review_one :: "llm_outcome \<Rightarrow> candidate \<Rightarrow> candidate list \<times> world \<Rightarrow> candidate list \<times> world" where
  "review_one outcome amb st =
     (case st of (llm_approved, w) \<Rightarrow>
        let prompt = build_llm_prompt amb;
            w1 = w\<lparr>requests := requests w @ [prompt]\<rparr>
        in case outcome of
             Raised \<Rightarrow> (llm_approved, w1)
           | Content raw parsed \<Rightarrow>
               let content = strip raw;
                   w2 = w1\<lparr>llm_log := llm_log w1 @ [(prompt, content)]\<rparr>
               in case parsed of
                    None \<Rightarrow> (llm_approved, w2)
                  | Some decision \<Rightarrow>
                      (case decide decision of
                         Inl e \<Rightarrow> (llm_approved, w2)
                       | Inr accept \<Rightarrow>
                           if accept then
                             (llm_approved @ [amb\<lparr>method_tag := ''llm_disambiguation''\<rparr>], w2)
                           else (llm_approved, w2)))"

fun review_loop ::
  "(nat \<Rightarrow> llm_outcome) \<Rightarrow> nat \<Rightarrow> candidate list \<Rightarrow> candidate list \<times> world \<Rightarrow> candidate list \<times> world" where
  "review_loop client i [] st = st"
| "review_loop client i (amb # rest) st =
     review_loop client (Suc i) rest (review_one (client i) amb st)"

text \<open>
  The bound of the Python slices \<^verbatim>\<open>xs[:k]\<close> and \<^verbatim>\<open>xs[k:]\<close> of a list of length
  \<open>n\<close>: a negative \<open>k\<close> counts from the end.
\<close>

definition slice_index :: "int \<Rightarrow> nat \<Rightarrow> nat" where
  "slice_index k n = (if k < 0 then nat (max 0 (int n + k)) else min n (nat k))"

definition llm_review_ambiguous ::
  "env \<Rightarrow> candidate list \<Rightarrow> int \<Rightarrow> world \<Rightarrow> (candidate list \<times> candidate list) \<times> world" where
  "llm_review_ambiguous e ambiguous max_to_review w =
     (if ambiguous = [] then (([], []), w)
      else if openai_client e = None \<or> openai_api_key e = None then (([], ambiguous), w)
      else
        let to_review = take (slice_index max_to_review (length ambiguous)) ambiguous;
            remaining = drop (slice_index max_to_review (length ambiguous)) ambiguous;
            (llm_approved, w') = review_loop (the (openai_client e)) 0 to_review ([], w);
            still_ambiguous = filter (\<lambda>m. m \<notin> set llm_approved) to_review @ remaining
        in ((llm_approved, still_ambiguous), w'))"

text \<open>
  Notions used to state the properties of the review. A verdict is a reply of the shape
  that the prompt asks for: a boolean \<^verbatim>\<open>is_match\<close>, a \<^verbatim>\<open>confidence\<close> that is one of
  the three words and a text \<^verbatim>\<open>reason\<close>; \<open>verdict_of\<close> reads it off a parsed
  value and is \<open>None\<close> for a value of another shape.
\<close>

datatype level = Low | Medium | High

record verdict =
  is_match :: bool
  confidence :: level
  reason :: string

definition level_of :: "string \<Rightarrow> level option" where
  "level_of s =
     (if s = ''low'' then Some Low else if s = ''medium'' then Some Medium
      else if s = ''high'' then Some High else None)"

definition verdict_of :: "json \<Rightarrow> verdict option" where
  "verdict_of decision =
     (case decision of
        JObj d \<Rightarrow>
          (case (map_of d ''is_match'', map_of d ''confidence'', map_of d ''reason'') of
             (Some (JBool b), Some (JStr c), Some (JStr r)) \<Rightarrow>
               (case level_of c of
                  Some l \<Rightarrow> Some \<lparr>is_match = b, confidence = l, reason = r\<rparr>
                | None \<Rightarrow> None)
           | _ \<Rightarrow> None)
      | _ \<Rightarrow> None)"

text \<open>The copy that the loop appends to the approved list.\<close>

definition retag :: "candidate \<Rightarrow> candidate" where
  "retag amb = amb\<lparr>method_tag := ''llm_disambiguation''\<rparr>"

text \<open>An outcome after which the loop body appends the copy.\<close>

definition approves :: "llm_outcome \<Rightarrow> bool" where
  "approves outcome =
     (case outcome of Content raw (Some decision) \<Rightarrow> decide decision = Inr True | _ \<Rightarrow> False)"

text \<open>The log lines that the loop body writes for an outcome.\<close>

definition log_lines :: "llm_outcome \<Rightarrow> candidate \<Rightarrow> (string \<times> string) list" where
  "log_lines outcome amb =
     (case outcome of Raised \<Rightarrow> [] | Content raw parsed \<Rightarrow> [(build_llm_prompt amb, strip raw)])"

text \<open>
  An outcome that is a failure of the item: the call raises, the body is not JSON, or the
  parsed value is not an object.
\<close>

definition item_failure :: "llm_outcome \<Rightarrow> bool" where
  "item_failure outcome =
     (case outcome of
        Raised \<Rightarrow> True
      | Content raw None \<Rightarrow> True
      | Content raw (Some (JObj d)) \<Rightarrow> False
      | Content raw (Some other) \<Rightarrow> True)"

text \<open>
  Sample data: the candidate that the matcher builds for W1 and A1, a client that
  approves every pair, a client whose replies are not of the asked shape, and a client
  whose every call raises.
\<close>

definition cand_W1 :: candidate where
  "cand_W1 =
     \<lparr>cc = fillna_cc cc_W1, abr = fillna_abr abr_A1, score = 100,
      method_tag = ''fuzzy_name_ambiguous''\<rparr>"

definition body_yes_high :: string where
  \<open>body_yes_high = ''{"is_match": true, "confidence": "high", "reason": "same name"}''\<close>

definition json_yes_high :: json where
  "json_yes_high =
     JObj [(''is_match'', JBool True), (''confidence'', JStr ''high''), (''reason'', JStr ''same name'')]"

definition body_text_false :: string where
  \<open>body_text_false = ''{"is_match": "false", "confidence": "high", "reason": "different companies"}''\<close>

definition json_text_false :: json where
  "json_text_false =
     JObj [(''is_match'', JStr ''false''), (''confidence'', JStr ''high''),
           (''reason'', JStr ''different companies'')]"

definition env_yes :: env where
  "env_yes =
     \<lparr>openai_client = Some (\<lambda>i. Content body_yes_high (Some json_yes_high)),
      openai_api_key = Some ''sk-sample''\<rparr>"

definition env_text_false :: env where
  "env_text_false =
     \<lparr>openai_client = Some (\<lambda>i. Content body_text_false (Some json_text_false)),
      openai_api_key = Some ''sk-sample''\<rparr>"

definition env_raising :: env where
  "env_raising =
     \<lparr>openai_client = Some (\<lambda>i. if i = 0 then Raised else Content body_yes_high (Some json_yes_high)),
      openai_api_key = Some ''sk-sample''\<rparr>"

definition env_no_key :: env where
  "env_no_key =
     \<lparr>openai_client = Some (\<lambda>i. Content body_yes_high (Some json_yes_high)),
      openai_api_key = None\<rparr>"

definition world0 :: world where
  "world0 = \<lparr>llm_log = [], requests = []\<rparr>"

text \<open>The parsed reply that states a verdict.\<close>

definition level_text :: "level \<Rightarrow> string" where
  "level_text l = (case l of Low \<Rightarrow> ''low'' | Medium \<Rightarrow> ''medium'' | High \<Rightarrow> ''high'')"

definition verdict_json :: "verdict \<Rightarrow> json" where
  "verdict_json v =
     JObj [(''is_match'', JBool (is_match v)), (''confidence'', JStr (level_text (confidence v))),
           (''reason'', JStr (reason v))]"

section \<open>write_matches_to_db\<close>

text \<open>\<^verbatim>\<open>str(i)\<close> for an integer.\<close>

fun digits :: "nat \<Rightarrow> string" where
  "digits n = (if n < 10 then [char_of (48 + n)] else digits (n div 10) @ [char_of (48 + n mod 10)])"

declare digits.simps [simp del]

definition str_int :: "int \<Rightarrow> string" where
  "str_int i = (if i < 0 then CHR ''-'' # digits (nat (- i)) else digits (nat i))"

text \<open>
  Modelled from the spec: the two tables. Their declarations are in
  \<^verbatim>\<open>sql/ddl_tables.sql\<close>, which is not among the sources. A row of
  \<^verbatim>\<open>company_unified\<close> has the columns that the INSERT statement names and the key
  \<^verbatim>\<open>company_id\<close> that it returns; a row of \<^verbatim>\<open>company_source_link\<close> has the three
  columns of its INSERT statement. The key comes from an identity sequence, which
  \<^verbatim>\<open>TRUNCATE ... RESTART IDENTITY\<close> sets back to 1.
\<close>

record unified_row =
  company_id :: nat
  unified_abn :: string
  unified_name :: string
  unified_name_norm :: string
  website_domain :: string
  website_url_sample :: string
  unified_industry :: string
  unified_entity_type :: string
  unified_entity_status :: string
  unified_address_full :: string
  unified_suburb :: string
  unified_postcode :: string
  unified_state :: string
  start_date :: "date option"
  match_confidence :: real
  match_method :: string

record link_row =
  link_company_id :: nat
  source_system :: string
  source_key :: string

record store =
  company_unified :: "unified_row list"
  company_source_link :: "link_row list"
  company_id_seq :: nat

text \<open>
  The database as the function meets it: whether \<^verbatim>\<open>get_connection\<close> succeeds, whether
  the TRUNCATE statement succeeds, whether the three INSERT statements for a match succeed
  on the tables as the transaction sees them (the constraints of the tables are not among
  the sources), and whether the commit succeeds.
\<close>

record database =
  connects :: bool
  truncates :: bool
  accepts :: "store \<Rightarrow> candidate \<Rightarrow> bool"
  commits :: bool

definition truncated :: store where
  "truncated = \<lparr>company_unified = [], company_source_link = [], company_id_seq = 1\<rparr>"

text \<open>The dict \<^verbatim>\<open>unified_record\<close>, with the key that the INSERT returns.\<close>

definition unified_record :: "strptime_fun \<Rightarrow> candidate \<Rightarrow> nat \<Rightarrow> py_exn + unified_row" where
  "unified_record strptime m new_id =
     (case parse_date_safe strptime (Some (start_date_raw (abr m))) of
        Inl e \<Rightarrow> Inl e
      | Inr start \<Rightarrow>
          Inr \<lparr>company_id = new_id,
               unified_abn = abn (abr m),
               unified_name = (if entity_name_raw (abr m) \<noteq> [] then entity_name_raw (abr m)
                               else entity_name_norm (abr m)),
               unified_name_norm = entity_name_norm (abr m),
               website_domain = domain (cc m),
               website_url_sample = url (cc m),
               unified_industry = industry (cc m),
               unified_entity_type = entity_type (abr m),
               unified_entity_status = entity_status (abr m),
               unified_address_full = address_full (abr m),
               unified_suburb = suburb (abr m),
               unified_postcode = postcode (abr m),
               unified_state = state (abr m),
               start_date = start,
               match_confidence = score m,
               match_method = method_tag m\<rparr>)"

text \<open>The loop over the matches, inside the transaction; \<open>Inl\<close> when a statement raises.\<close>

fun insert_matches :: "database \<Rightarrow> strptime_fun \<Rightarrow> candidate list \<Rightarrow> store \<Rightarrow> py_exn + store" where
  "insert_matches db strptime [] s = Inr s"
| "insert_matches db strptime (m # rest) s =
     (case unified_record strptime m (company_id_seq s) of
        Inl e \<Rightarrow> Inl e
      | Inr row \<Rightarrow>
          if accepts db s m then
            insert_matches db strptime rest
              (s\<lparr>company_unified := company_unified s @ [row],
                 company_source_link := company_source_link s @
                   [\<lparr>link_company_id = company_id row, source_system = ''ABR'',
                     source_key = abn (abr m)\<rparr>,
                    \<lparr>link_company_id = company_id row, source_system = ''COMMONCRAWL'',
                     source_key = str_int (commoncrawl_id (cc m))\<rparr>],
                 company_id_seq := Suc (company_id_seq s)\<rparr>)
          else Inl DatabaseError)"

text \<open>
  The result is the outcome of the call and the store after it: after a commit the store
  of the transaction, after a rollback the store as it was before the call.
\<close>

definition write_matches_to_db ::
  "database \<Rightarrow> strptime_fun \<Rightarrow> candidate list \<Rightarrow> store \<Rightarrow> (py_exn + unit) \<times> store" where
  "write_matches_to_db db strptime matches s =
     (if matches = [] then (Inr (), s)
      else if \<not> connects db then (Inl DatabaseError, s)
      else if \<not> truncates db then (Inl DatabaseError, s)
      else case insert_matches db strptime matches truncated of
             Inl e \<Rightarrow> (Inl e, s)
           | Inr s' \<Rightarrow> if commits db then (Inr (), s') else (Inl DatabaseError, s))"

text \<open>
  Sample data: a database that accepts every row, and the match that the review approves
  for W1 and A1.
\<close>

definition db_ok :: database where
  "db_ok = \<lparr>connects = True, truncates = True, accepts = (\<lambda>s m. True), commits = True\<rparr>"

definition match_W1 :: candidate where
  "match_W1 = cand_W1\<lparr>method_tag := ''llm_disambiguation''\<rparr>"

section \<open>Properties of the matcher\<close>

lemma scan_registry_keep:
  "\<forall>r\<in>set rows. eligible r \<longrightarrow> ratio_to f nm r \<le> bs \<Longrightarrow>
   scan_registry f nm rows (bs, br, c) = (bs, br, c + length (filter eligible rows))"
  by (induction rows arbitrary: c) (auto simp: eligible_def ratio_to_def Let_def)

lemma scan_registry_pick:
  "\<exists>r\<in>set rows. eligible r \<and> bs < ratio_to f nm r \<Longrightarrow>
   \<exists>pre e post. rows = pre @ e # post \<and> eligible e \<and> bs < ratio_to f nm e \<and>
     (\<forall>r\<in>set pre. eligible r \<longrightarrow> ratio_to f nm r < ratio_to f nm e) \<and>
     (\<forall>r\<in>set post. eligible r \<longrightarrow> ratio_to f nm r \<le> ratio_to f nm e) \<and>
     scan_registry f nm rows (bs, br, c) = (ratio_to f nm e, Some e, c + length (filter eligible rows))"
proof (induction rows arbitrary: bs br c)
  case Nil
  then show ?case by simp
next
  case (Cons a rows)
  show ?case
  proof (cases "eligible a")
    case False
    with Cons.prems have "\<exists>r\<in>set rows. eligible r \<and> bs < ratio_to f nm r" by auto
    from Cons.IH[OF this, of br c] obtain pre e post where
      h: "rows = pre @ e # post" "eligible e" "bs < ratio_to f nm e"
         "\<forall>r\<in>set pre. eligible r \<longrightarrow> ratio_to f nm r < ratio_to f nm e"
         "\<forall>r\<in>set post. eligible r \<longrightarrow> ratio_to f nm r \<le> ratio_to f nm e"
         "scan_registry f nm rows (bs, br, c) = (ratio_to f nm e, Some e, c + length (filter eligible rows))"
      by blast
    have "a # rows = (a # pre) @ e # post" using h(1) by simp
    moreover have "\<forall>r\<in>set (a # pre). eligible r \<longrightarrow> ratio_to f nm r < ratio_to f nm e"
      using h(4) False by simp
    moreover have "scan_registry f nm (a # rows) (bs, br, c) =
        (ratio_to f nm e, Some e, c + length (filter eligible (a # rows)))"
      using h(6) False by (simp add: eligible_def)
    ultimately show ?thesis using h(2,3,5) by blast
  next
    case True
    show ?thesis
    proof (cases "bs < ratio_to f nm a")
      case gt: True
      have step: "scan_registry f nm (a # rows) (bs, br, c) =
          scan_registry f nm rows (ratio_to f nm a, Some a, Suc c)"
        using True gt by (simp add: eligible_def ratio_to_def Let_def)
      show ?thesis
      proof (cases "\<exists>r\<in>set rows. eligible r \<and> ratio_to f nm a < ratio_to f nm r")
        case True
        from Cons.IH[OF this, of "Some a" "Suc c"] obtain pre e post where
          h: "rows = pre @ e # post" "eligible e" "ratio_to f nm a < ratio_to f nm e"
             "\<forall>r\<in>set pre. eligible r \<longrightarrow> ratio_to f nm r < ratio_to f nm e"
             "\<forall>r\<in>set post. eligible r \<longrightarrow> ratio_to f nm r \<le> ratio_to f nm e"
             "scan_registry f nm rows (ratio_to f nm a, Some a, Suc c) =
                (ratio_to f nm e, Some e, Suc c + length (filter eligible rows))"
          by blast
        have "a # rows = (a # pre) @ e # post" using h(1) by simp
        moreover have "\<forall>r\<in>set (a # pre). eligible r \<longrightarrow> ratio_to f nm r < ratio_to f nm e"
          using h(3,4) by simp
        moreover have "bs < ratio_to f nm e" using gt h(3) by simp
        moreover have "scan_registry f nm (a # rows) (bs, br, c) =
            (ratio_to f nm e, Some e, c + length (filter eligible (a # rows)))"
          using step h(6) \<open>eligible a\<close> by simp
        ultimately show ?thesis using h(2,5) by blast
      next
        case False
        then have le: "\<forall>r\<in>set rows. eligible r \<longrightarrow> ratio_to f nm r \<le> ratio_to f nm a"
          by (auto simp: not_less)
        have "scan_registry f nm (a # rows) (bs, br, c) =
            (ratio_to f nm a, Some a, c + length (filter eligible (a # rows)))"
          using step scan_registry_keep[OF le, of "Some a" "Suc c"] \<open>eligible a\<close> by simp
        moreover have "a # rows = [] @ a # rows" by simp
        ultimately show ?thesis using \<open>eligible a\<close> gt le by (metis empty_iff list.set(1))
      qed
    next
      case le: False
      have step: "scan_registry f nm (a # rows) (bs, br, c) =
          scan_registry f nm rows (bs, br, Suc c)"
        using True le by (simp add: eligible_def ratio_to_def Let_def)
      from Cons.prems le have "\<exists>r\<in>set rows. eligible r \<and> bs < ratio_to f nm r" by auto
      from Cons.IH[OF this, of br "Suc c"] obtain pre e post where
        h: "rows = pre @ e # post" "eligible e" "bs < ratio_to f nm e"
           "\<forall>r\<in>set pre. eligible r \<longrightarrow> ratio_to f nm r < ratio_to f nm e"
           "\<forall>r\<in>set post. eligible r \<longrightarrow> ratio_to f nm r \<le> ratio_to f nm e"
           "scan_registry f nm rows (bs, br, Suc c) =
              (ratio_to f nm e, Some e, Suc c + length (filter eligible rows))"
        by blast
      have "a # rows = (a # pre) @ e # post" using h(1) by simp
      moreover have "\<forall>r\<in>set (a # pre). eligible r \<longrightarrow> ratio_to f nm r < ratio_to f nm e"
        using h(3,4) le by auto
      moreover have "scan_registry f nm (a # rows) (bs, br, c) =
          (ratio_to f nm e, Some e, c + length (filter eligible (a # rows)))"
        using step h(6) \<open>eligible a\<close> by simp
      ultimately show ?thesis using h(2,3,5) by blast
    qed
  qed
qed

lemma scan_registry_calls:
  "snd (snd (scan_registry f nm rows (bs, br, c))) = c + length (filter eligible rows)"
  by (induction rows arbitrary: bs br c) (auto simp: eligible_def Let_def)

lemma match_row_eq:
  "match_row f abr_df r b =
     b\<lparr>ambiguous_matches := ambiguous_matches b @
          (case best_pair f abr_df r of Some c \<Rightarrow> [c] | None \<Rightarrow> []),
       unmatched_cc := unmatched_cc b @
          (case best_pair f abr_df r of Some c \<Rightarrow> [] | None \<Rightarrow> [r]),
       comparisons := comparisons b + (if named r then length (filter eligible abr_df) else 0)\<rparr>"
proof (cases "named r")
  case False
  then show ?thesis by (simp add: match_row_def best_pair_def named_def)
next
  case True
  obtain s e n where sc: "scan_registry f (strip (company_name_norm r)) abr_df (- 1, None, 0) = (s, e, n)"
    by (cases "scan_registry f (strip (company_name_norm r)) abr_df (- 1, None, 0)") auto
  have n: "n = length (filter eligible abr_df)"
    using scan_registry_calls[of f "strip (company_name_norm r)" abr_df "- 1" None 0] sc by simp
  show ?thesis using True sc n
    by (cases e) (simp_all add: match_row_def best_pair_def named_def)
qed

lemma match_rows_eq:
  "match_rows f abr_df rs b =
     b\<lparr>ambiguous_matches := ambiguous_matches b @ List.map_filter (best_pair f abr_df) rs,
       unmatched_cc := unmatched_cc b @ filter (\<lambda>r. best_pair f abr_df r = None) rs,
       comparisons := comparisons b + length (filter named rs) * length (filter eligible abr_df)\<rparr>"
proof (induction rs arbitrary: b)
  case Nil
  then show ?case by (simp add: List.map_filter_simps)
next
  case (Cons r rs)
  show ?case
    by (cases "best_pair f abr_df r")
       (simp_all add: Cons.IH match_row_eq List.map_filter_simps)
qed

lemma best_pair_unnamed: "\<not> named r \<Longrightarrow> best_pair f abr_df r = None"
  by (simp add: best_pair_def named_def)

lemma best_pair_no_eligible:
  assumes "\<forall>a\<in>set abr_df. \<not> eligible a"
  shows "best_pair f abr_df r = None"
proof -
  have "\<forall>a\<in>set abr_df. eligible a \<longrightarrow> ratio_to f (strip (company_name_norm r)) a \<le> - 1"
    using assms by simp
  from scan_registry_keep[OF this, of None 0] show ?thesis
    by (simp add: best_pair_def Let_def)
qed

lemma best_pair_first_best:
  assumes "named r"
    and "\<exists>a\<in>set abr_df. eligible a \<and> - 1 < ratio_to f (strip (company_name_norm r)) a"
  shows "\<exists>pre e post. abr_df = pre @ e # post \<and> eligible e \<and>
     (\<forall>a\<in>set pre. eligible a \<longrightarrow>
        ratio_to f (strip (company_name_norm r)) a < ratio_to f (strip (company_name_norm r)) e) \<and>
     (\<forall>a\<in>set post. eligible a \<longrightarrow>
        ratio_to f (strip (company_name_norm r)) a \<le> ratio_to f (strip (company_name_norm r)) e) \<and>
     best_pair f abr_df r =
       Some \<lparr>cc = r, abr = e, score = ratio_to f (strip (company_name_norm r)) e,
             method_tag = ''fuzzy_name_ambiguous''\<rparr>"
proof -
  from scan_registry_pick[OF assms(2), of None 0] obtain pre e post where
    h: "abr_df = pre @ e # post" "eligible e"
       "\<forall>a\<in>set pre. eligible a \<longrightarrow>
          ratio_to f (strip (company_name_norm r)) a < ratio_to f (strip (company_name_norm r)) e"
       "\<forall>a\<in>set post. eligible a \<longrightarrow>
          ratio_to f (strip (company_name_norm r)) a \<le> ratio_to f (strip (company_name_norm r)) e"
       "scan_registry f (strip (company_name_norm r)) abr_df (- 1, None, 0) =
          (ratio_to f (strip (company_name_norm r)) e, Some e, 0 + length (filter eligible abr_df))"
    by blast
  have "best_pair f abr_df r =
       Some \<lparr>cc = r, abr = e, score = ratio_to f (strip (company_name_norm r)) e,
             method_tag = ''fuzzy_name_ambiguous''\<rparr>"
    using assms(1) h(5) by (simp add: best_pair_def named_def)
  with h(1-4) show ?thesis by blast
qed

lemma fuzzy_match_entities_eq:
  "abr_df \<noteq> [] \<Longrightarrow> cc_df \<noteq> [] \<Longrightarrow>
   fuzzy_match_entities f abr_df cc_df h l =
     \<lparr>high_conf_matches = [],
      ambiguous_matches = List.map_filter (best_pair f (map fillna_abr abr_df)) (map fillna_cc cc_df),
      unmatched_cc = filter (\<lambda>r. best_pair f (map fillna_abr abr_df) r = None) (map fillna_cc cc_df),
      comparisons = length (filter named (map fillna_cc cc_df)) *
                    length (filter eligible (map fillna_abr abr_df))\<rparr>"
  by (simp add: fuzzy_match_entities_def match_rows_eq empty_buckets_def)

lemma best_pair_cc: "best_pair f abr_df r' = Some c \<Longrightarrow> cc c = r'"
  by (auto simp: best_pair_def Let_def split: if_splits prod.splits option.splits)

lemma filter_map_filter_replicate:
  assumes "\<And>r' c. g r' = Some c \<Longrightarrow> cc c = r'" and "g r0 = Some c0"
  shows "filter (\<lambda>c. cc c = r0) (List.map_filter g rs) = replicate (count_list rs r0) c0"
proof (induction rs)
  case Nil
  then show ?case by (simp add: List.map_filter_simps)
next
  case (Cons r rs)
  show ?case
  proof (cases "g r")
    case None
    then have "r \<noteq> r0" using assms(2) by auto
    with None Cons.IH show ?thesis by (simp add: List.map_filter_simps)
  next
    case (Some c)
    then have c: "cc c = r" by (rule assms(1))
    show ?thesis
    proof (cases "r = r0")
      case True
      with Some assms(2) have "c = c0" by simp
      with True Some c Cons.IH show ?thesis by (simp add: List.map_filter_simps)
    next
      case False
      with Some c Cons.IH show ?thesis by (simp add: List.map_filter_simps)
    qed
  qed
qed

lemmas sample_defs =
  abr_A1_def abr_A2_def abr_unnamed_def cc_W1_def cc_W2_def blank_abr_def blank_cc_def
  sample_ratio_def fillna_abr_def fillna_cc_def fillna_cell_def

lemma strip_acme: "strip ''ACME PTY LTD'' = ''ACME PTY LTD''"
  by (simp add: strip_def isspace_char_def)

lemma strip_blank: "strip [] = []" "strip '' '' = []"
  by (simp_all add: strip_def isspace_char_def)

lemma fuzzy_match_entities_sample:
  "fuzzy_match_entities sample_ratio [abr_A1, abr_A2] [cc_W1, cc_W2] 90 75 =
     \<lparr>high_conf_matches = [],
      ambiguous_matches =
        [\<lparr>cc = fillna_cc cc_W1, abr = fillna_abr abr_A1, score = 100,
          method_tag = ''fuzzy_name_ambiguous''\<rparr>],
      unmatched_cc = [fillna_cc cc_W2], comparisons = 2\<rparr>"
  by (simp add: fuzzy_match_entities_def match_row_def empty_buckets_def sample_defs
      strip_acme strip_blank Let_def)

lemma fuzzy_match_entities_unnamed_registry:
  "fuzzy_match_entities sample_ratio [abr_unnamed] [cc_W1, cc_W2] 90 75 =
     \<lparr>high_conf_matches = [], ambiguous_matches = [],
      unmatched_cc = [fillna_cc cc_W1, fillna_cc cc_W2], comparisons = 0\<rparr>"
  by (simp add: fuzzy_match_entities_def match_row_def empty_buckets_def sample_defs
      strip_acme strip_blank Let_def)

text \<open>
  Claim C7. For a mention with a non-empty stripped name, matched against a registry that
  has at least one row with a non-empty stripped name, the registry splits at one eligible
  row: every eligible row before it scores strictly less and every eligible row after it
  scores at most as much, so it is the first row with the best score. The candidates that
  the matcher emits for the mention are this one candidate, once for each occurrence of
  the mention in the crawl table: every emitted candidate of the mention carries this row
  and its score, there is at least one, and the mention is not in the unmatched list. The
  similarity function returns scores that are not negative, as the library documents
  (0 to 100).
\<close>

theorem matcher_selects_first_best:
  assumes "r \<in> set cc_df"
    and "named (fillna_cc r)"
    and "\<exists>a\<in>set abr_df. eligible (fillna_abr a)"
    and "\<forall>x y. 0 \<le> f x y"
  shows "\<exists>pre e post.
     map fillna_abr abr_df = pre @ e # post \<and> eligible e \<and>
     (\<forall>a\<in>set pre. eligible a \<longrightarrow>
        ratio_to f (strip (company_name_norm (fillna_cc r))) a
          < ratio_to f (strip (company_name_norm (fillna_cc r))) e) \<and>
     (\<forall>a\<in>set post. eligible a \<longrightarrow>
        ratio_to f (strip (company_name_norm (fillna_cc r))) a
          \<le> ratio_to f (strip (company_name_norm (fillna_cc r))) e) \<and>
     filter (\<lambda>c. cc c = fillna_cc r) (ambiguous_matches (fuzzy_match_entities f abr_df cc_df h l)) =
       replicate (count_list (map fillna_cc cc_df) (fillna_cc r))
         \<lparr>cc = fillna_cc r, abr = e,
          score = ratio_to f (strip (company_name_norm (fillna_cc r))) e,
          method_tag = ''fuzzy_name_ambiguous''\<rparr> \<and>
     0 < count_list (map fillna_cc cc_df) (fillna_cc r) \<and>
     (\<forall>c\<in>set (ambiguous_matches (fuzzy_match_entities f abr_df cc_df h l)).
        cc c = fillna_cc r \<longrightarrow>
          abr c = e \<and> score c = ratio_to f (strip (company_name_norm (fillna_cc r))) e) \<and>
     (\<exists>c\<in>set (ambiguous_matches (fuzzy_match_entities f abr_df cc_df h l)). cc c = fillna_cc r) \<and>
     fillna_cc r \<notin> set (unmatched_cc (fuzzy_match_entities f abr_df cc_df h l))"
proof -
  let ?abr = "map fillna_abr abr_df" and ?r = "fillna_cc r"
  let ?nm = "strip (company_name_norm ?r)"
  let ?res = "fuzzy_match_entities f abr_df cc_df h l"
  from assms(3) obtain a where a: "a \<in> set ?abr" "eligible a" by auto
  have "- 1 < ratio_to f ?nm a" using assms(4) by (simp add: ratio_to_def order.strict_trans2[of "-1" 0])
  with a have "\<exists>a\<in>set ?abr. eligible a \<and> - 1 < ratio_to f ?nm a" by blast
  from best_pair_first_best[OF assms(2) this] obtain pre e post where
    h: "?abr = pre @ e # post" "eligible e"
       "\<forall>a\<in>set pre. eligible a \<longrightarrow> ratio_to f ?nm a < ratio_to f ?nm e"
       "\<forall>a\<in>set post. eligible a \<longrightarrow> ratio_to f ?nm a \<le> ratio_to f ?nm e"
       "best_pair f ?abr ?r =
          Some \<lparr>cc = ?r, abr = e, score = ratio_to f ?nm e, method_tag = ''fuzzy_name_ambiguous''\<rparr>"
    by blast
  let ?c = "\<lparr>cc = ?r, abr = e, score = ratio_to f ?nm e, method_tag = ''fuzzy_name_ambiguous''\<rparr>"
  let ?n = "count_list (map fillna_cc cc_df) ?r"
  have ne: "abr_df \<noteq> []" "cc_df \<noteq> []" using assms(1,3) by auto
  have mem: "?r \<in> set (map fillna_cc cc_df)" using assms(1) by simp
  have flt: "filter (\<lambda>c. cc c = ?r) (ambiguous_matches ?res) = replicate ?n ?c"
    using filter_map_filter_replicate[of "best_pair f ?abr" ?r ?c "map fillna_cc cc_df"]
      best_pair_cc[of f ?abr] h(5)
    by (simp add: fuzzy_match_entities_eq[OF ne])
  have pos: "0 < ?n"
  proof -
    have "?n \<noteq> 0" using mem unfolding count_list_0_iff by blast
    then show ?thesis by simp
  qed
  have all: "\<forall>c\<in>set (ambiguous_matches ?res). cc c = ?r \<longrightarrow> abr c = e \<and> score c = ratio_to f ?nm e"
  proof (intro ballI impI)
    fix c assume "c \<in> set (ambiguous_matches ?res)" "cc c = ?r"
    then have "c \<in> set (filter (\<lambda>c. cc c = ?r) (ambiguous_matches ?res))" by simp
    then have "c = ?c" unfolding flt by simp
    then show "abr c = e \<and> score c = ratio_to f ?nm e" by simp
  qed
  have ex: "\<exists>c\<in>set (ambiguous_matches ?res). cc c = ?r"
  proof -
    have "?c \<in> set (replicate ?n ?c)" using pos by simp
    then have "?c \<in> set (filter (\<lambda>c. cc c = ?r) (ambiguous_matches ?res))" unfolding flt .
    then have "?c \<in> set (ambiguous_matches ?res)" by simp
    moreover have "cc ?c = ?r" by simp
    ultimately show ?thesis by (rule bexI[rotated])
  qed
  have un: "?r \<notin> set (unmatched_cc ?res)"
    using h(5) by (simp add: fuzzy_match_entities_eq[OF ne])
  from h(1-4) flt pos all ex un show ?thesis by blast
qed

text \<open>
  The theorem at a registry of two rows with the same name, hence the same score: the
  only candidate is the one with the first row.
\<close>

theorem matcher_selects_first_best_witness:
  "cc_W1 \<in> set [cc_W1, cc_W2] \<and> named (fillna_cc cc_W1) \<and>
   (\<exists>a\<in>set [abr_A1, abr_A2]. eligible (fillna_abr a)) \<and> (\<forall>x y. 0 \<le> sample_ratio x y) \<and>
   ambiguous_matches (fuzzy_match_entities sample_ratio [abr_A1, abr_A2] [cc_W1, cc_W2] 90 75) =
     [\<lparr>cc = fillna_cc cc_W1, abr = fillna_abr abr_A1, score = 100,
       method_tag = ''fuzzy_name_ambiguous''\<rparr>] \<and>
   (\<exists>c\<in>set (ambiguous_matches (fuzzy_match_entities sample_ratio [abr_A1, abr_A2] [cc_W1, cc_W2] 90 75)).
      cc c = fillna_cc cc_W1) \<and>
   fillna_cc cc_W1 \<notin> set (unmatched_cc (fuzzy_match_entities sample_ratio [abr_A1, abr_A2] [cc_W1, cc_W2] 90 75))"
proof -
  have h1: "cc_W1 \<in> set [cc_W1, cc_W2]" by simp
  have h2: "named (fillna_cc cc_W1)" by (simp add: named_def sample_defs strip_acme)
  have h3: "\<exists>a\<in>set [abr_A1, abr_A2]. eligible (fillna_abr a)"
    by (simp add: eligible_def sample_defs strip_acme)
  have h4: "\<forall>x y. 0 \<le> sample_ratio x y" by (simp add: sample_ratio_def)
  have h5: "ambiguous_matches (fuzzy_match_entities sample_ratio [abr_A1, abr_A2] [cc_W1, cc_W2] 90 75) =
     [\<lparr>cc = fillna_cc cc_W1, abr = fillna_abr abr_A1, score = 100,
       method_tag = ''fuzzy_name_ambiguous''\<rparr>]"
    by (simp add: fuzzy_match_entities_sample)
  from matcher_selects_first_best[OF h1 h2 h3 h4, of 90 75] h1 h2 h3 h4 h5 show ?thesis by blast
qed

text \<open>
  Claim C2 says that a candidate whose score reaches the high threshold is placed in the
  auto-accept list. With thresholds 90 and 75 the candidate for W1 scores 100 and is
  placed in the needs-adjudication list; the auto-accept list is empty.
\<close>

theorem tier_classifier_counterexample:
  "high_conf_matches (fuzzy_match_entities sample_ratio [abr_A1] [cc_W1] 90 75) = [] \<and>
   map score (ambiguous_matches (fuzzy_match_entities sample_ratio [abr_A1] [cc_W1] 90 75)) = [100] \<and>
   real_of_int 90 \<le> 100 \<and> (90::int) \<ge> 75"
  by (simp add: fuzzy_match_entities_def match_row_def empty_buckets_def sample_defs
      strip_acme strip_blank Let_def)

text \<open>
  Claim C2, amended. The function does not read its thresholds: for every pair of
  thresholds the auto-accept list is empty, the needs-adjudication list holds every
  candidate that the matcher builds, whatever its score, and the result is the same as
  for any other pair of thresholds.
\<close>

theorem fuzzy_match_entities_ignores_thresholds:
  "high_conf_matches (fuzzy_match_entities f abr_df cc_df high low) = [] \<and>
   ambiguous_matches (fuzzy_match_entities f abr_df cc_df high low) =
     List.map_filter (best_pair f (map fillna_abr abr_df)) (map fillna_cc cc_df) \<and>
   fuzzy_match_entities f abr_df cc_df high low = fuzzy_match_entities f abr_df cc_df high' low'"
proof (cases "abr_df = [] \<or> cc_df = []")
  case True
  have "List.map_filter (best_pair f []) (map fillna_cc cc_df) = []"
    by (induction cc_df) (simp_all add: List.map_filter_simps best_pair_no_eligible)
  with True show ?thesis
    by (auto simp: fuzzy_match_entities_def empty_buckets_def List.map_filter_simps)
next
  case False
  then show ?thesis by (simp add: fuzzy_match_entities_eq)
qed

theorem fuzzy_match_entities_ignores_thresholds_witness:
  "high_conf_matches (fuzzy_match_entities sample_ratio [abr_A1, abr_A2] [cc_W1, cc_W2] 90 75) = [] \<and>
   ambiguous_matches (fuzzy_match_entities sample_ratio [abr_A1, abr_A2] [cc_W1, cc_W2] 90 75) =
     [\<lparr>cc = fillna_cc cc_W1, abr = fillna_abr abr_A1, score = 100,
       method_tag = ''fuzzy_name_ambiguous''\<rparr>] \<and>
   fuzzy_match_entities sample_ratio [abr_A1, abr_A2] [cc_W1, cc_W2] 90 75 =
     fuzzy_match_entities sample_ratio [abr_A1, abr_A2] [cc_W1, cc_W2] 101 0"
proof -
  from fuzzy_match_entities_ignores_thresholds[of sample_ratio "[abr_A1, abr_A2]" "[cc_W1, cc_W2]" 90 75 101 0]
  have "high_conf_matches (fuzzy_match_entities sample_ratio [abr_A1, abr_A2] [cc_W1, cc_W2] 90 75) = [] \<and>
     fuzzy_match_entities sample_ratio [abr_A1, abr_A2] [cc_W1, cc_W2] 90 75 =
       fuzzy_match_entities sample_ratio [abr_A1, abr_A2] [cc_W1, cc_W2] 101 0"
    by blast
  moreover have "ambiguous_matches (fuzzy_match_entities sample_ratio [abr_A1, abr_A2] [cc_W1, cc_W2] 90 75) =
     [\<lparr>cc = fillna_cc cc_W1, abr = fillna_abr abr_A1, score = 100,
       method_tag = ''fuzzy_name_ambiguous''\<rparr>]"
    by (simp add: fuzzy_match_entities_sample)
  ultimately show ?thesis by blast
qed

text \<open>
  Claim C8. The matcher is given a registry table that is not empty. A mention whose
  stripped name is empty, and any mention when no registry row has a name, is in the
  unmatched list, once for each of its occurrences in the crawl table, and is the mention
  of no candidate. The number of similarity comparisons of a run is the number of named
  mentions times the number of named registry rows, and the loop body for an unnamed
  mention only appends it to the unmatched list, so no comparison is made for it. The
  function has no raising operation on these paths: its result is a value in every case.
\<close>

theorem unnamed_rows_unmatched:
  assumes "abr_df \<noteq> []" and "r \<in> set cc_df"
    and "\<not> named (fillna_cc r) \<or> (\<forall>a\<in>set abr_df. \<not> eligible (fillna_abr a))"
  shows "fillna_cc r \<in> set (unmatched_cc (fuzzy_match_entities f abr_df cc_df high low)) \<and>
     filter (\<lambda>x. x = fillna_cc r) (unmatched_cc (fuzzy_match_entities f abr_df cc_df high low)) =
       filter (\<lambda>x. x = fillna_cc r) (map fillna_cc cc_df) \<and>
     fillna_cc r \<notin> cc ` set (ambiguous_matches (fuzzy_match_entities f abr_df cc_df high low)) \<and>
     comparisons (fuzzy_match_entities f abr_df cc_df high low) =
       length (filter named (map fillna_cc cc_df)) * length (filter eligible (map fillna_abr abr_df)) \<and>
     (\<not> named (fillna_cc r) \<longrightarrow>
        match_row f (map fillna_abr abr_df) (fillna_cc r) b =
          b\<lparr>unmatched_cc := unmatched_cc b @ [fillna_cc r]\<rparr>)"
proof -
  let ?abr = "map fillna_abr abr_df" and ?r = "fillna_cc r"
  have ne: "abr_df \<noteq> []" "cc_df \<noteq> []" using assms(1,2) by auto
  have none: "best_pair f ?abr ?r = None"
    using assms(3) best_pair_unnamed[of ?r f ?abr] best_pair_no_eligible[of ?abr f ?r] by auto
  have 1: "?r \<in> set (unmatched_cc (fuzzy_match_entities f abr_df cc_df high low))"
    using none assms(2) by (simp add: fuzzy_match_entities_eq[OF ne])
  have 2: "?r \<notin> cc ` set (ambiguous_matches (fuzzy_match_entities f abr_df cc_df high low))"
  proof
    assume "?r \<in> cc ` set (ambiguous_matches (fuzzy_match_entities f abr_df cc_df high low))"
    then obtain c where c: "c \<in> set (List.map_filter (best_pair f ?abr) (map fillna_cc cc_df))" "cc c = ?r"
      by (auto simp: fuzzy_match_entities_eq[OF ne])
    then obtain r' where "best_pair f ?abr r' = Some c"
      unfolding List.map_filter_def by auto
    with best_pair_cc[OF this] c(2) none show False by simp
  qed
  have 3: "comparisons (fuzzy_match_entities f abr_df cc_df high low) =
       length (filter named (map fillna_cc cc_df)) * length (filter eligible ?abr)"
    by (simp add: fuzzy_match_entities_eq[OF ne])
  have 4: "\<not> named ?r \<longrightarrow> match_row f ?abr ?r b = b\<lparr>unmatched_cc := unmatched_cc b @ [?r]\<rparr>"
    by (simp add: match_row_def named_def)
  have 5: "filter (\<lambda>x. x = ?r) (unmatched_cc (fuzzy_match_entities f abr_df cc_df high low)) =
       filter (\<lambda>x. x = ?r) (map fillna_cc cc_df)"
  proof -
    have "filter (\<lambda>x. x = ?r) (filter (\<lambda>r. best_pair f ?abr r = None) (map fillna_cc cc_df)) =
          filter (\<lambda>x. x = ?r) (map fillna_cc cc_df)"
      unfolding filter_filter using none by (intro filter_cong) auto
    then show ?thesis by (simp add: fuzzy_match_entities_eq[OF ne])
  qed
  from 1 2 3 4 5 show ?thesis by blast
qed

text \<open>A registry whose only row has a blank name: W1 is unmatched and nothing is compared.\<close>

theorem unnamed_rows_unmatched_witness:
  "[abr_unnamed] \<noteq> [] \<and> cc_W1 \<in> set [cc_W1, cc_W2] \<and>
   \<not> eligible (fillna_abr abr_unnamed) \<and>
   fillna_cc cc_W1 \<in> set (unmatched_cc (fuzzy_match_entities sample_ratio [abr_unnamed] [cc_W1, cc_W2] 90 75)) \<and>
   unmatched_cc (fuzzy_match_entities sample_ratio [abr_unnamed] [cc_W1, cc_W2] 90 75) =
     [fillna_cc cc_W1, fillna_cc cc_W2] \<and>
   comparisons (fuzzy_match_entities sample_ratio [abr_unnamed] [cc_W1, cc_W2] 90 75) = 0"
proof -
  have h1: "[abr_unnamed] \<noteq> []" by simp
  have h2: "cc_W1 \<in> set [cc_W1, cc_W2]" by simp
  have h3: "\<forall>a\<in>set [abr_unnamed]. \<not> eligible (fillna_abr a)"
    by (simp add: eligible_def sample_defs strip_blank)
  then have h3': "\<not> named (fillna_cc cc_W1) \<or> (\<forall>a\<in>set [abr_unnamed]. \<not> eligible (fillna_abr a))" by simp
  have h5: "comparisons (fuzzy_match_entities sample_ratio [abr_unnamed] [cc_W1, cc_W2] 90 75) = 0"
    by (simp add: fuzzy_match_entities_unnamed_registry)
  have h6: "unmatched_cc (fuzzy_match_entities sample_ratio [abr_unnamed] [cc_W1, cc_W2] 90 75) =
     [fillna_cc cc_W1, fillna_cc cc_W2]"
    by (simp add: fuzzy_match_entities_unnamed_registry)
  from h3 have h4: "\<not> eligible (fillna_abr abr_unnamed)" by simp
  from unnamed_rows_unmatched[OF h1 h2 h3', of sample_ratio 90 75] h1 h2 h4 h5 h6 show ?thesis by blast
qed

section \<open>Properties of parse_date_safe\<close>

text \<open>
  Claim C10. For every argument (a string or \<^verbatim>\<open>None\<close>) \<^verbatim>\<open>parse_date_safe\<close> returns
  and does not raise, whatever the library parser does. It returns a date exactly when the
  argument is a string of 8 digits that the parser accepts for \<^verbatim>\<open>%Y%m%d\<close> or a
  string of 10 characters with a dash that the parser accepts for \<^verbatim>\<open>%Y-%m-%d\<close>;
  in every other case it returns \<^verbatim>\<open>None\<close>.
\<close>

theorem parse_date_safe_total:
  "(\<exists>r. parse_date_safe strptime x = Inr r) \<and>
   (parse_date_safe strptime x = Inr (Some d) \<longleftrightarrow>
      (\<exists>s. x = Some s \<and>
         ((length s = 8 \<and> isdigit s \<and> strptime s ''%Y%m%d'' = Inr d) \<or>
          (length s = 10 \<and> CHR ''-'' \<in> set s \<and> strptime s ''%Y-%m-%d'' = Inr d)))) \<and>
   ((\<forall>d'. parse_date_safe strptime x \<noteq> Inr (Some d')) \<longleftrightarrow> parse_date_safe strptime x = Inr None)"
  by (cases x) (auto simp: parse_date_safe_def try_except_def strptime_date_def split: sum.splits)

theorem parse_date_safe_total_witness:
  "parse_date_safe sample_strptime (Some ''20240229'') = Inr (Some \<lparr>year = 2024, month = 2, day = 29\<rparr>) \<and>
   parse_date_safe sample_strptime (Some ''20240230'') = Inr None \<and>
   parse_date_safe sample_strptime (Some ''2024-02-29'') = Inr (Some \<lparr>year = 2024, month = 2, day = 29\<rparr>) \<and>
   parse_date_safe sample_strptime (Some ''29 Feb'') = Inr None \<and>
   parse_date_safe sample_strptime None = Inr None"
proof -
  have d8: "isdigit ''20240229''" "isdigit ''20240230''"
    by (simp_all add: isdigit_def isdigit_char_def)
  have nd: "\<not> isdigit ''2024-02-29''"
    by (simp add: isdigit_def isdigit_char_def)
  from parse_date_safe_total[of sample_strptime "Some ''20240229''" "\<lparr>year = 2024, month = 2, day = 29\<rparr>"]
  have 1: "parse_date_safe sample_strptime (Some ''20240229'') = Inr (Some \<lparr>year = 2024, month = 2, day = 29\<rparr>)"
    using d8 by (simp add: sample_strptime_def)
  have 2: "parse_date_safe sample_strptime (Some ''20240230'') = Inr None"
    using d8 by (simp add: parse_date_safe_def try_except_def strptime_date_def sample_strptime_def)
  from parse_date_safe_total[of sample_strptime "Some ''2024-02-29''" "\<lparr>year = 2024, month = 2, day = 29\<rparr>"]
  have 3: "parse_date_safe sample_strptime (Some ''2024-02-29'') = Inr (Some \<lparr>year = 2024, month = 2, day = 29\<rparr>)"
    using nd by (simp add: sample_strptime_def)
  have 4: "parse_date_safe sample_strptime (Some ''29 Feb'') = Inr None"
    by (simp add: parse_date_safe_def try_except_def)
  have 5: "parse_date_safe sample_strptime None = Inr None"
    by (simp add: parse_date_safe_def)
  from 1 2 3 4 5 show ?thesis by blast
qed

section \<open>Properties of the review\<close>

lemma review_one_eq:
  "review_one outcome amb (acc, w) =
     (if approves outcome then acc @ [retag amb] else acc,
      w\<lparr>requests := requests w @ [build_llm_prompt amb],
        llm_log := llm_log w @ log_lines outcome amb\<rparr>)"
  by (auto simp: review_one_def approves_def retag_def log_lines_def Let_def
      split: llm_outcome.splits option.splits sum.splits)

lemma review_loop_eq:
  "review_loop client i xs (acc, w) =
     (acc @ map retag (map snd (filter (\<lambda>(j, x). approves (client j)) (zip [i..<i + length xs] xs))),
      w\<lparr>requests := requests w @ map build_llm_prompt xs,
        llm_log := llm_log w @ concat (map (\<lambda>(j, x). log_lines (client j) x) (zip [i..<i + length xs] xs))\<rparr>)"
proof (induction xs arbitrary: i acc w)
  case Nil
  then show ?case by simp
next
  case (Cons x xs)
  have up: "[i..<i + length (x # xs)] = i # [Suc i..<Suc i + length xs]"
  proof -
    have "i < i + length (x # xs)" by simp
    from upt_conv_Cons[OF this] show ?thesis by simp
  qed
  show ?case
    unfolding up by (simp add: review_one_eq Cons.IH)
qed

lemma llm_review_ambiguous_eq:
  assumes "openai_client e = Some client" and "openai_api_key e = Some key"
  shows "llm_review_ambiguous e xs k w =
    (let n = slice_index k (length xs);
         approved = map retag (map snd (filter (\<lambda>(j, x). approves (client j)) (zip [0..<length (take n xs)] (take n xs))))
     in ((approved, filter (\<lambda>m. m \<notin> set approved) (take n xs) @ drop n xs),
         w\<lparr>requests := requests w @ map build_llm_prompt (take n xs),
           llm_log := llm_log w @ concat (map (\<lambda>(j, x). log_lines (client j) x) (zip [0..<length (take n xs)] (take n xs)))\<rparr>))"
proof (cases "xs = []")
  case True
  then show ?thesis by (simp add: llm_review_ambiguous_def Let_def)
next
  case False
  then show ?thesis using assms
    by (simp add: llm_review_ambiguous_def Let_def review_loop_eq del: length_take)
qed

lemma lower_words:
  "lower ''low'' = ''low''" "lower ''medium'' = ''medium''" "lower ''high'' = ''high''"
  by (simp_all add: lower_def lower_char_def)

lemma level_of_lower:
  "level_of c = Some l \<Longrightarrow> lower c = level_text l"
  by (auto simp: level_of_def level_text_def lower_words split: if_splits)

lemma decide_verdict:
  assumes "verdict_of decision = Some v"
  shows "decide decision = Inr (is_match v \<and> (confidence v = Medium \<or> confidence v = High))"
proof -
  from assms obtain d b c r l where
    d: "decision = JObj d" "map_of d ''is_match'' = Some (JBool b)"
       "map_of d ''confidence'' = Some (JStr c)" "level_of c = Some l"
       "v = \<lparr>is_match = b, confidence = l, reason = r\<rparr>"
    by (auto simp: verdict_of_def split: json.splits option.splits)
  have "lower c = level_text l" using d(4) by (rule level_of_lower)
  then show ?thesis using d
    by (cases l) (simp_all add: decide_def dict_get_def level_text_def)
qed

lemma decide_yes_high: "decide json_yes_high = Inr True"
  by (simp add: decide_def json_yes_high_def dict_get_def lower_words)

lemma still_ambiguous_whole_input:
  assumes "openai_client e = Some client" and "openai_api_key e = Some key"
    and "\<forall>m\<in>set xs. method_tag m \<noteq> ''llm_disambiguation''"
  shows "snd (fst (llm_review_ambiguous e xs k w)) = xs"
proof -
  let ?n = "slice_index k (length xs)"
  let ?approved = "map retag (map snd (filter (\<lambda>(j, x). approves (client j)) (zip [0..<length (take ?n xs)] (take ?n xs))))"
  have "\<forall>m\<in>set (take ?n xs). m \<notin> set ?approved"
  proof
    fix m assume "m \<in> set (take ?n xs)"
    then have "m \<in> set xs" by (rule in_set_takeD)
    with assms(3) have "method_tag m \<noteq> ''llm_disambiguation''" by simp
    moreover have "\<forall>a\<in>set ?approved. method_tag a = ''llm_disambiguation''"
      by (auto simp: retag_def)
    ultimately show "m \<notin> set ?approved" by blast
  qed
  then have "filter (\<lambda>m. m \<notin> set ?approved) (take ?n xs) = take ?n xs"
    by (simp add: filter_id_conv)
  then show ?thesis
    unfolding llm_review_ambiguous_eq[OF assms(1,2)] Let_def by simp
qed

lemma item_failure_not_approved: "item_failure outcome \<Longrightarrow> \<not> approves outcome"
  by (auto simp: item_failure_def approves_def decide_def split: llm_outcome.splits option.splits json.splits)

text \<open>
  Claim C3. When the parsed reply is a verdict, the loop body appends the copy of the item
  to the approved list if and only if \<^verbatim>\<open>is_match\<close> is true and the confidence is
  medium or high; otherwise the approved list is unchanged. In both cases the prompt is
  sent and the reply is logged. In a run, the approved list therefore holds the copy of
  the item reviewed at position \<open>i\<close> exactly when its verdict passes this test, next to
  the copies of the other items that their own outcomes approve.
\<close>

theorem acceptance_rule:
  assumes "verdict_of decision = Some v"
  shows "review_one (Content raw (Some decision)) amb (approved, w) =
     (if is_match v \<and> (confidence v = Medium \<or> confidence v = High)
      then approved @ [amb\<lparr>method_tag := ''llm_disambiguation''\<rparr>] else approved,
      w\<lparr>requests := requests w @ [build_llm_prompt amb],
        llm_log := llm_log w @ [(build_llm_prompt amb, strip raw)]\<rparr>) \<and>
   (openai_client e = Some client \<and> openai_api_key e = Some key \<and>
    i < slice_index k (length xs) \<and> client i = Content raw (Some decision) \<longrightarrow>
      fst (fst (llm_review_ambiguous e xs k w)) =
        map (\<lambda>(j, x). x\<lparr>method_tag := ''llm_disambiguation''\<rparr>)
          (filter (\<lambda>(j, x). if j = i then is_match v \<and> (confidence v = Medium \<or> confidence v = High)
                              else approves (client j))
             (zip [0..<slice_index k (length xs)] (take (slice_index k (length xs)) xs))))"
proof -
  let ?n = "slice_index k (length xs)"
  let ?rule = "is_match v \<and> (confidence v = Medium \<or> confidence v = High)"
  have d: "decide decision = Inr ?rule" using assms by (rule decide_verdict)
  have 1: "review_one (Content raw (Some decision)) amb (approved, w) =
     (if ?rule then approved @ [amb\<lparr>method_tag := ''llm_disambiguation''\<rparr>] else approved,
      w\<lparr>requests := requests w @ [build_llm_prompt amb],
        llm_log := llm_log w @ [(build_llm_prompt amb, strip raw)]\<rparr>)"
    using d by (simp add: review_one_def Let_def)
  have 2: "fst (fst (llm_review_ambiguous e xs k w)) =
        map (\<lambda>(j, x). x\<lparr>method_tag := ''llm_disambiguation''\<rparr>)
          (filter (\<lambda>(j, x). if j = i then ?rule else approves (client j))
             (zip [0..<?n] (take ?n xs)))"
    if h: "openai_client e = Some client" "openai_api_key e = Some key"
      "i < ?n" "client i = Content raw (Some decision)"
  proof -
    have ap: "approves (client i) = ?rule" using h(4) d by (auto simp: approves_def)
    have z: "zip [0..<length (take ?n xs)] (take ?n xs) = zip [0..<?n] (take ?n xs)"
      by (simp add: zip_eq_conv slice_index_def min_def)
    have p: "(\<lambda>(j, x). approves (client j)) =
             (\<lambda>(j, x :: candidate). if j = i then ?rule else approves (client j))"
    proof (rule ext)
      fix jx :: "nat \<times> candidate"
      show "(case jx of (j, x) \<Rightarrow> approves (client j)) =
            (case jx of (j, x) \<Rightarrow> if j = i then ?rule else approves (client j))"
        using ap by (cases jx) simp
    qed
    show ?thesis
      unfolding llm_review_ambiguous_eq[OF h(1,2)] Let_def z p
      by (simp add: retag_def split_def comp_def)
  qed
  from 1 2 show ?thesis by blast
qed

text \<open>
  The three cases that the specification lists: true with low is rejected, true with
  medium is accepted, false with high is rejected.
\<close>

theorem acceptance_rule_witness:
  "verdict_of (verdict_json \<lparr>is_match = True, confidence = Low, reason = ''unsure''\<rparr>) =
     Some \<lparr>is_match = True, confidence = Low, reason = ''unsure''\<rparr> \<and>
   fst (review_one (Content [] (Some (verdict_json \<lparr>is_match = True, confidence = Low, reason = ''unsure''\<rparr>)))
          cand_W1 ([], world0)) = [] \<and>
   fst (review_one (Content [] (Some (verdict_json \<lparr>is_match = True, confidence = Medium, reason = ''likely''\<rparr>)))
          cand_W1 ([], world0)) = [cand_W1\<lparr>method_tag := ''llm_disambiguation''\<rparr>] \<and>
   fst (review_one (Content [] (Some (verdict_json \<lparr>is_match = False, confidence = High, reason = ''other''\<rparr>)))
          cand_W1 ([], world0)) = [] \<and>
   verdict_of json_yes_high = Some \<lparr>is_match = True, confidence = High, reason = ''same name''\<rparr> \<and>
   fst (fst (llm_review_ambiguous env_yes [cand_W1] 10 world0)) =
     [cand_W1\<lparr>method_tag := ''llm_disambiguation''\<rparr>]"
proof -
  let ?low = "\<lparr>is_match = True, confidence = Low, reason = ''unsure''\<rparr>"
  let ?med = "\<lparr>is_match = True, confidence = Medium, reason = ''likely''\<rparr>"
  let ?no = "\<lparr>is_match = False, confidence = High, reason = ''other''\<rparr>"
  let ?yes = "\<lparr>is_match = True, confidence = High, reason = ''same name''\<rparr>"
  let ?client = "\<lambda>i::nat. Content body_yes_high (Some json_yes_high)"
  have v: "verdict_of (verdict_json ?low) = Some ?low" "verdict_of (verdict_json ?med) = Some ?med"
    "verdict_of (verdict_json ?no) = Some ?no"
    by (simp_all add: verdict_of_def verdict_json_def level_text_def level_of_def)
  have vy: "verdict_of json_yes_high = Some ?yes"
    by (simp add: verdict_of_def json_yes_high_def level_of_def)
  from acceptance_rule[OF v(1), where raw = "[]" and amb = cand_W1 and approved = "[]" and w = world0]
  have 1: "fst (review_one (Content [] (Some (verdict_json ?low))) cand_W1 ([], world0)) = []"
    by simp
  from acceptance_rule[OF v(2), where raw = "[]" and amb = cand_W1 and approved = "[]" and w = world0]
  have 2: "fst (review_one (Content [] (Some (verdict_json ?med))) cand_W1 ([], world0)) =
      [cand_W1\<lparr>method_tag := ''llm_disambiguation''\<rparr>]"
    by simp
  from acceptance_rule[OF v(3), where raw = "[]" and amb = cand_W1 and approved = "[]" and w = world0]
  have 3: "fst (review_one (Content [] (Some (verdict_json ?no))) cand_W1 ([], world0)) = []"
    by simp
  have n: "slice_index 10 (length [cand_W1]) = 1" by (simp add: slice_index_def)
  from acceptance_rule[OF vy, where raw = body_yes_high and e = env_yes and client = ?client
      and key = "''sk-sample''" and i = 0 and k = 10 and xs = "[cand_W1]" and w = world0]
  have 4: "fst (fst (llm_review_ambiguous env_yes [cand_W1] 10 world0)) =
     [cand_W1\<lparr>method_tag := ''llm_disambiguation''\<rparr>]"
    unfolding n by (simp add: env_yes_def)
  from v(1) 1 2 3 vy 4 show ?thesis by blast
qed

text \<open>
  Claim C5. Without a client or without the API key, the review of a non-empty list
  returns no approved item and the input list itself, and leaves the log and the list of
  requests as they were.
\<close>

theorem client_unavailable_skips_review:
  assumes "openai_client e = None \<or> openai_api_key e = None" and "xs \<noteq> []"
  shows "llm_review_ambiguous e xs k w = (([], xs), w)"
  using assms by (auto simp: llm_review_ambiguous_def)

theorem client_unavailable_skips_review_witness:
  "(openai_client env_no_key = None \<or> openai_api_key env_no_key = None) \<and> [cand_W1] \<noteq> [] \<and>
   llm_review_ambiguous env_no_key [cand_W1] 10 world0 = (([], [cand_W1]), world0)"
proof -
  have h1: "openai_client env_no_key = None \<or> openai_api_key env_no_key = None"
    by (simp add: env_no_key_def)
  have h2: "[cand_W1] \<noteq> []" by simp
  from client_unavailable_skips_review[OF h1 h2, of 10 world0] h1 h2 show ?thesis by blast
qed

text \<open>
  Claim C6. With a client and a key, and a cap \<open>k\<close> that is not negative, the
  requests of a run are the prompts of the first \<open>k\<close> items in their order, that is
  \<open>min n k\<close> requests for \<open>n\<close> items; the items after the first \<open>k\<close>
  end the still-ambiguous list unchanged. This holds for every client, hence for every
  outcome of its calls.
\<close>

theorem review_cap_respected:
  assumes "openai_client e = Some client" and "openai_api_key e = Some key" and "0 \<le> k"
  shows "requests (snd (llm_review_ambiguous e xs k w)) =
       requests w @ map build_llm_prompt (take (nat k) xs) \<and>
     length (take (nat k) xs) = min (length xs) (nat k) \<and>
     snd (fst (llm_review_ambiguous e xs k w)) =
       filter (\<lambda>m. m \<notin> set (fst (fst (llm_review_ambiguous e xs k w)))) (take (nat k) xs) @
       drop (nat k) xs \<and>
     length (drop (nat k) xs) = length xs - nat k"
proof -
  have n: "take (slice_index k (length xs)) xs = take (nat k) xs"
          "drop (slice_index k (length xs)) xs = drop (nat k) xs"
    using assms(3) by (simp_all add: slice_index_def min_def)
  show ?thesis
    unfolding llm_review_ambiguous_eq[OF assms(1,2)] Let_def n by simp
qed

text \<open>Fifteen items and a cap of ten: ten requests, and the last five items deferred.\<close>

theorem review_cap_respected_witness:
  "openai_client env_yes = Some (\<lambda>i. Content body_yes_high (Some json_yes_high)) \<and>
   openai_api_key env_yes = Some ''sk-sample'' \<and> (0::int) \<le> 10 \<and>
   requests (snd (llm_review_ambiguous env_yes (replicate 15 cand_W1) 10 world0)) =
     replicate 10 (build_llm_prompt cand_W1) \<and>
   drop 10 (snd (fst (llm_review_ambiguous env_yes (replicate 15 cand_W1) 10 world0))) =
     replicate 5 cand_W1"
proof -
  have h1: "openai_client env_yes = Some (\<lambda>i. Content body_yes_high (Some json_yes_high))"
    by (simp add: env_yes_def)
  have h2: "openai_api_key env_yes = Some ''sk-sample''" by (simp add: env_yes_def)
  have h3: "(0::int) \<le> 10" by simp
  note t = review_cap_respected[OF h1 h2 h3, of "replicate 15 cand_W1" world0]
  have a: "requests (snd (llm_review_ambiguous env_yes (replicate 15 cand_W1) 10 world0)) =
     replicate 10 (build_llm_prompt cand_W1)"
    using t by (simp add: world0_def)
  have "\<forall>m\<in>set (replicate 15 cand_W1). method_tag m \<noteq> ''llm_disambiguation''"
    by (simp add: cand_W1_def)
  from still_ambiguous_whole_input[OF h1 h2 this, of 10 world0]
  have b: "drop 10 (snd (fst (llm_review_ambiguous env_yes (replicate 15 cand_W1) 10 world0))) =
     replicate 5 cand_W1"
    by simp
  from h1 h2 h3 a b show ?thesis by blast
qed

text \<open>
  Claim C1 at one candidate that the client approves: the approved list holds the copy
  tagged \<^verbatim>\<open>llm_disambiguation\<close>, and the still-ambiguous list holds the candidate as
  well, since the filter compares the candidate with the copy, whose tag differs.
\<close>

theorem accepted_item_stays_ambiguous:
  "fst (llm_review_ambiguous env_yes [cand_W1] 10 world0) =
     ([cand_W1\<lparr>method_tag := ''llm_disambiguation''\<rparr>], [cand_W1])"
  by (simp add: llm_review_ambiguous_def env_yes_def slice_index_def review_one_def Let_def
      decide_yes_high cand_W1_def)

text \<open>
  Claim C4 says that a reply which is not of the asked shape makes the item a failure.
  The reply below has the text \<^verbatim>\<open>"false"\<close> where a boolean is asked; it is not a
  verdict, and the item is approved, since a non-empty text is true for \<^verbatim>\<open>bool\<close>.
\<close>

theorem lenient_reply_counterexample:
  "verdict_of json_text_false = None \<and>
   fst (fst (llm_review_ambiguous env_text_false [cand_W1] 10 world0)) =
     [cand_W1\<lparr>method_tag := ''llm_disambiguation''\<rparr>]"
  by (simp add: llm_review_ambiguous_def env_text_false_def slice_index_def review_one_def Let_def
      verdict_of_def json_text_false_def decide_def dict_get_def lower_words cand_W1_def)

text \<open>
  Claim C4, amended. When the call for an item raises, or its body is not JSON, or the
  parsed value is not an object, the loop body leaves the approved list as it is; the run
  still sends the prompt of every item to review, and its approved list holds the copies
  of exactly the other items whose own outcome approves them. A parsed object is approved
  when its \<^verbatim>\<open>is_match\<close> is true for \<^verbatim>\<open>bool\<close> and its \<^verbatim>\<open>confidence\<close>, as lower-case
  text, is \<^verbatim>\<open>high\<close> or \<^verbatim>\<open>medium\<close>, whether or not it has the asked shape.
\<close>

theorem failed_item_skipped:
  assumes "openai_client e = Some client" and "openai_api_key e = Some key"
    and "i < slice_index k (length xs)" and "item_failure (client i)"
  shows "fst (review_one (client i) amb (approved, w')) = approved \<and>
     fst (fst (llm_review_ambiguous e xs k w)) =
       map (\<lambda>(j, x). x\<lparr>method_tag := ''llm_disambiguation''\<rparr>)
         (filter (\<lambda>(j, x). j \<noteq> i \<and> approves (client j))
            (zip [0..<slice_index k (length xs)] (take (slice_index k (length xs)) xs))) \<and>
     requests (snd (llm_review_ambiguous e xs k w)) =
       requests w @ map build_llm_prompt (take (slice_index k (length xs)) xs) \<and>
     (\<forall>raw d. approves (Content raw (Some (JObj d))) =
        (py_bool (dict_get d ''is_match'' JNull) \<and>
         (map_option lower (py_str (dict_get d ''confidence'' (JStr []))) = Some ''high'' \<or>
          map_option lower (py_str (dict_get d ''confidence'' (JStr []))) = Some ''medium'')))"
proof -
  let ?n = "slice_index k (length xs)"
  have na: "\<not> approves (client i)" using assms(4) by (rule item_failure_not_approved)
  have 1: "fst (review_one (client i) amb (approved, w')) = approved"
    using na by (simp add: review_one_eq)
  have f: "filter (\<lambda>(j, x). approves (client j)) (zip [0..<length (take ?n xs)] (take ?n xs)) =
           filter (\<lambda>(j, x). j \<noteq> i \<and> approves (client j)) (zip [0..<?n] (take ?n xs))"
  proof -
    have "zip [0..<length (take ?n xs)] (take ?n xs) = zip [0..<?n] (take ?n xs)"
      by (simp add: zip_eq_conv slice_index_def min_def) 
    moreover have "(\<lambda>(j, x). approves (client j)) = (\<lambda>(j, x :: candidate). j \<noteq> i \<and> approves (client j))"
      using na by auto
    ultimately show ?thesis by simp
  qed
  have 2: "fst (fst (llm_review_ambiguous e xs k w)) =
       map (\<lambda>(j, x). x\<lparr>method_tag := ''llm_disambiguation''\<rparr>)
         (filter (\<lambda>(j, x). j \<noteq> i \<and> approves (client j)) (zip [0..<?n] (take ?n xs)))"
    unfolding llm_review_ambiguous_eq[OF assms(1,2)] Let_def f
    by (simp add: retag_def split_def comp_def)
  have 3: "requests (snd (llm_review_ambiguous e xs k w)) =
       requests w @ map build_llm_prompt (take ?n xs)"
    unfolding llm_review_ambiguous_eq[OF assms(1,2)] Let_def by simp
  have 4: "\<forall>raw d. approves (Content raw (Some (JObj d))) =
        (py_bool (dict_get d ''is_match'' JNull) \<and>
         (map_option lower (py_str (dict_get d ''confidence'' (JStr []))) = Some ''high'' \<or>
          map_option lower (py_str (dict_get d ''confidence'' (JStr []))) = Some ''medium''))"
    by (simp add: approves_def decide_def Let_def)
  from 1 2 3 4 show ?thesis by blast
qed

text \<open>Two items, the first call raises: the second item is sent and approved.\<close>

theorem failed_item_skipped_witness:
  "openai_client env_raising = Some (\<lambda>i. if i = 0 then Raised else Content body_yes_high (Some json_yes_high)) \<and>
   openai_api_key env_raising = Some ''sk-sample'' \<and>
   0 < slice_index 10 (length [cand_W1, cand_W1]) \<and>
   item_failure (if (0::nat) = 0 then Raised else Content body_yes_high (Some json_yes_high)) \<and>
   fst (fst (llm_review_ambiguous env_raising [cand_W1, cand_W1] 10 world0)) =
     [cand_W1\<lparr>method_tag := ''llm_disambiguation''\<rparr>] \<and>
   requests (snd (llm_review_ambiguous env_raising [cand_W1, cand_W1] 10 world0)) =
     [build_llm_prompt cand_W1, build_llm_prompt cand_W1]"
proof -
  let ?client = "\<lambda>i::nat. if i = 0 then Raised else Content body_yes_high (Some json_yes_high)"
  have h1: "openai_client env_raising = Some ?client" by (simp add: env_raising_def)
  have h2: "openai_api_key env_raising = Some ''sk-sample''" by (simp add: env_raising_def)
  have h3: "0 < slice_index 10 (length [cand_W1, cand_W1])" by (simp add: slice_index_def)
  have h4: "item_failure (?client 0)" by (simp add: item_failure_def)
  have n: "slice_index 10 (length [cand_W1, cand_W1]) = 2" by (simp add: slice_index_def)
  have u: "[0..<2] = [0, Suc 0]" by (simp add: upt_rec numeral_2_eq_2)
  have ap: "approves (Content body_yes_high (Some json_yes_high))"
    by (simp add: approves_def decide_yes_high)
  note t = failed_item_skipped[OF h1 h2 h3 h4, of cand_W1 "[]" world0 world0]
  have a: "fst (fst (llm_review_ambiguous env_raising [cand_W1, cand_W1] 10 world0)) =
     [cand_W1\<lparr>method_tag := ''llm_disambiguation''\<rparr>]"
    using t ap unfolding n u by simp
  have b: "requests (snd (llm_review_ambiguous env_raising [cand_W1, cand_W1] 10 world0)) =
     [build_llm_prompt cand_W1, build_llm_prompt cand_W1]"
    using t unfolding n by (simp add: world0_def)
  from h1 h2 h3 h4 a b show ?thesis by simp
qed

section \<open>Properties of the writer\<close>

lemma insert_matches_counts:
  "insert_matches db sp ms s = Inr s' \<Longrightarrow>
   length (company_unified s') = length (company_unified s) + length ms \<and>
   length (company_source_link s') = length (company_source_link s) + 2 * length ms \<and>
   company_id_seq s' = company_id_seq s + length ms \<and>
   map company_id (company_unified s') =
     map company_id (company_unified s) @ [company_id_seq s..<company_id_seq s + length ms]"
proof (induction ms arbitrary: s)
  case Nil
  then show ?case by simp
next
  case (Cons m ms)
  from Cons.prems obtain row where
    row: "unified_record sp m (company_id_seq s) = Inr row" "accepts db s m"
    and rest: "insert_matches db sp ms
              (s\<lparr>company_unified := company_unified s @ [row],
                 company_source_link := company_source_link s @
                   [\<lparr>link_company_id = company_id row, source_system = ''ABR'',
                     source_key = abn (abr m)\<rparr>,
                    \<lparr>link_company_id = company_id row, source_system = ''COMMONCRAWL'',
                     source_key = str_int (commoncrawl_id (cc m))\<rparr>],
                 company_id_seq := Suc (company_id_seq s)\<rparr>) = Inr s'"
    by (auto split: sum.splits if_splits)
  have id: "company_id row = company_id_seq s"
    using row(1) by (auto simp: unified_record_def split: sum.splits)
  have up: "[company_id_seq s..<company_id_seq s + length (m # ms)] =
      company_id_seq s # [Suc (company_id_seq s)..<Suc (company_id_seq s) + length ms]"
  proof -
    have "company_id_seq s < company_id_seq s + length (m # ms)" by simp
    from upt_conv_Cons[OF this] show ?thesis by simp
  qed
  from Cons.IH[OF rest] show ?case unfolding up by (simp add: id)
qed

lemma unified_record_match_W1:
  "\<exists>row. unified_record sample_strptime match_W1 n = Inr row"
  by (simp add: unified_record_def match_W1_def cand_W1_def parse_date_safe_def sample_defs)

lemma insert_matches_db_ok:
  "\<exists>s'. insert_matches db_ok sample_strptime (replicate n match_W1) s = Inr s'"
proof (induction n arbitrary: s)
  case 0
  then show ?case by simp
next
  case (Suc n)
  obtain row where "unified_record sample_strptime match_W1 (company_id_seq s) = Inr row"
    using unified_record_match_W1 by blast
  then show ?case using Suc.IH by (simp add: db_ok_def)
qed

lemma write_db_ok:
  "0 < n \<Longrightarrow> fst (write_matches_to_db db_ok sample_strptime (replicate n match_W1) s) = Inr ()"
  using insert_matches_db_ok[of n truncated]
  by (auto simp: write_matches_to_db_def db_ok_def)

text \<open>
  Claim C9 says that every run truncates the two tables first and leaves one unified row
  per candidate. A run with an empty list returns at its first test: after a run that
  wrote one match, a run with no match leaves the unified table with its one row.
\<close>

theorem empty_write_counterexample:
  "length (company_unified (snd (write_matches_to_db db_ok sample_strptime []
      (snd (write_matches_to_db db_ok sample_strptime [match_W1] truncated))))) = 1"
proof -
  obtain s' where s': "insert_matches db_ok sample_strptime [match_W1] truncated = Inr s'"
    using insert_matches_db_ok[of 1 truncated] by auto
  then have "snd (write_matches_to_db db_ok sample_strptime [match_W1] truncated) = s'"
    by (simp add: write_matches_to_db_def db_ok_def)
  moreover have "length (company_unified s') = 1"
    using insert_matches_counts[OF s'] by (simp add: truncated_def)
  ultimately show ?thesis by (simp add: write_matches_to_db_def)
qed

text \<open>
  Claim C9, amended. Writing the same list twice leaves the store that writing it once
  leaves. A run with a non-empty list that commits starts from the truncated tables: it
  leaves one unified row and two link rows for each match, with the keys 1 to the number
  of matches, whatever the store held before. A run that raises rolls back and leaves the
  store as it was, and a run with an empty list returns before the truncation and leaves
  the store as it was.
\<close>

theorem write_matches_to_db_idempotent:
  "snd (write_matches_to_db db sp ms (snd (write_matches_to_db db sp ms s))) =
     snd (write_matches_to_db db sp ms s) \<and>
   (ms \<noteq> [] \<and> fst (write_matches_to_db db sp ms s) = Inr () \<longrightarrow>
      length (company_unified (snd (write_matches_to_db db sp ms s))) = length ms \<and>
      length (company_source_link (snd (write_matches_to_db db sp ms s))) = 2 * length ms \<and>
      map company_id (company_unified (snd (write_matches_to_db db sp ms s))) = [1..<Suc (length ms)] \<and>
      write_matches_to_db db sp ms s = write_matches_to_db db sp ms s0) \<and>
   (ms \<noteq> [] \<and> fst (write_matches_to_db db sp ms s) \<noteq> Inr () \<longrightarrow>
      snd (write_matches_to_db db sp ms s) = s) \<and>
   write_matches_to_db db sp [] s = (Inr (), s)"
proof -
  have 1: "snd (write_matches_to_db db sp ms (snd (write_matches_to_db db sp ms s))) =
     snd (write_matches_to_db db sp ms s)"
    by (auto simp: write_matches_to_db_def split: sum.splits)
  have 2: "ms \<noteq> [] \<and> fst (write_matches_to_db db sp ms s) = Inr () \<longrightarrow>
      length (company_unified (snd (write_matches_to_db db sp ms s))) = length ms \<and>
      length (company_source_link (snd (write_matches_to_db db sp ms s))) = 2 * length ms \<and>
      map company_id (company_unified (snd (write_matches_to_db db sp ms s))) = [1..<Suc (length ms)] \<and>
      write_matches_to_db db sp ms s = write_matches_to_db db sp ms s0"
  proof (intro impI, elim conjE)
    assume ne: "ms \<noteq> []" and ok: "fst (write_matches_to_db db sp ms s) = Inr ()"
    then obtain s' where s': "insert_matches db sp ms truncated = Inr s'"
      "write_matches_to_db db sp ms s = (Inr (), s')"
      by (auto simp: write_matches_to_db_def split: sum.splits if_splits)
    from ne ok have c: "connects db" "truncates db" "commits db"
      by (auto simp: write_matches_to_db_def split: if_splits sum.splits)
    have "write_matches_to_db db sp ms s0 = (Inr (), s')"
      using ne c s'(1) by (simp add: write_matches_to_db_def)
    with insert_matches_counts[OF s'(1)] s'(2) show
      "length (company_unified (snd (write_matches_to_db db sp ms s))) = length ms \<and>
      length (company_source_link (snd (write_matches_to_db db sp ms s))) = 2 * length ms \<and>
      map company_id (company_unified (snd (write_matches_to_db db sp ms s))) = [1..<Suc (length ms)] \<and>
      write_matches_to_db db sp ms s = write_matches_to_db db sp ms s0"
      by (simp add: truncated_def)
  qed
  have 3: "ms \<noteq> [] \<and> fst (write_matches_to_db db sp ms s) \<noteq> Inr () \<longrightarrow>
      snd (write_matches_to_db db sp ms s) = s"
    by (auto simp: write_matches_to_db_def split: sum.splits)
  have 4: "write_matches_to_db db sp [] s = (Inr (), s)"
    by (simp add: write_matches_to_db_def)
  from 1 2 3 4 show ?thesis by blast
qed

text \<open>A store of two unified rows, then a run with one match: one row and two links.\<close>

theorem write_matches_to_db_idempotent_witness:
  "[match_W1] \<noteq> [] \<and>
   fst (write_matches_to_db db_ok sample_strptime [match_W1]
          (snd (write_matches_to_db db_ok sample_strptime [match_W1, match_W1] truncated))) = Inr () \<and>
   length (company_unified (snd (write_matches_to_db db_ok sample_strptime [match_W1, match_W1] truncated))) = 2 \<and>
   length (company_unified (snd (write_matches_to_db db_ok sample_strptime [match_W1]
          (snd (write_matches_to_db db_ok sample_strptime [match_W1, match_W1] truncated))))) = 1 \<and>
   length (company_source_link (snd (write_matches_to_db db_ok sample_strptime [match_W1]
          (snd (write_matches_to_db db_ok sample_strptime [match_W1, match_W1] truncated))))) = 2"
proof -
  let ?s = "snd (write_matches_to_db db_ok sample_strptime [match_W1, match_W1] truncated)"
  have h1: "[match_W1] \<noteq> []" by simp
  have h2: "fst (write_matches_to_db db_ok sample_strptime [match_W1] ?s) = Inr ()"
    using write_db_ok[of 1 ?s] by simp
  have h3: "length (company_unified ?s) = 2"
  proof -
    obtain s' where s': "insert_matches db_ok sample_strptime (replicate 2 match_W1) truncated = Inr s'"
      using insert_matches_db_ok[of 2 truncated] by auto
    have r: "replicate 2 match_W1 = [match_W1, match_W1]" by (simp add: numeral_2_eq_2)
    have "?s = s'" using s' unfolding r by (simp add: write_matches_to_db_def db_ok_def)
    moreover have "length (company_unified s') = 2"
      using insert_matches_counts[OF s'] by (simp add: truncated_def)
    ultimately show ?thesis by simp
  qed
  from write_matches_to_db_idempotent[of db_ok sample_strptime "[match_W1]" ?s] h1 h2 h3
  show ?thesis by simp
qed

end
